theory Spec2Isabelle
  imports Complex_Main "HOL-Library.Sublist"
begin

section \<open>Common conventions\<close>

text \<open>
  Python exceptions are values: every operation that can raise returns a sum whose left
  injection carries the exception.  \<open>IOError\<close> carries its message.
\<close>

datatype py_error =
    ZeroDivisionError
  | OverflowError
  | IndexError
  | KeyError
  | ValueError
  | TypeError
  | IOError string

section \<open>hexrd/imageseries/stats.py\<close>

text \<open>
  An image series is a sequence of frames; \<open>ims.shape\<close> is the shape of one frame and
  \<open>ims.dtype.itemsize\<close> the byte width of one pixel.  A frame is a list of rows.  Pixel
  values are integers (the maximum and the zero fill of an accumulator do not depend on
  the width of the pixel type).  The frames of a series all have the shape the series
  declares.
\<close>

type_synonym image = "int list list"

record imageseries =
  frames :: "image list"
  shape :: "int \<times> int"
  itemsize :: int

text \<open>A Python slice bound \<open>i\<close> on a sequence of length \<open>n\<close>: negative bounds count from the
  end, and every bound is clipped to the sequence.\<close>

definition slice_index :: "int \<Rightarrow> nat \<Rightarrow> nat" where
  "slice_index i n = (if i < 0 then nat (max 0 (i + int n)) else min (nat i) n)"

definition py_slice :: "int \<Rightarrow> int \<Rightarrow> 'a list \<Rightarrow> 'a list" where
  "py_slice lo hi xs =
     (let a = slice_index lo (length xs);
          b = slice_index hi (length xs)
      in take (b - a) (drop a xs))"

text \<open>\<open>_nframes\<close>: the number of frames to use.\<close>

definition nframes_of :: "imageseries \<Rightarrow> int \<Rightarrow> int" where
  "nframes_of ims nframes =
     (let mynf = int (length (frames ims))
      in if nframes > 0 then min mynf nframes else mynf)"

text \<open>
  Modelled from the spec: the rectangle operation of the processed image series
  (\<open>hexrd.imageseries.process\<close>, not among the sources) restricts every frame to the rows
  \<open>r0:r1\<close> and the columns \<open>c0:c1\<close>.
\<close>

definition rectangle :: "int \<Rightarrow> int \<Rightarrow> int \<Rightarrow> int \<Rightarrow> imageseries \<Rightarrow> imageseries" where
  "rectangle r0 r1 c0 c1 ims =
     (let fs = map (\<lambda>f. map (py_slice c0 c1) (py_slice r0 r1 f)) (frames ims)
      in ims\<lparr>frames := fs,
             shape := (int (slice_index r1 (nat (fst (shape ims))) - slice_index r0 (nat (fst (shape ims)))),
                       int (slice_index c1 (nat (snd (shape ims))) - slice_index c0 (nat (snd (shape ims)))))\<rparr>)"

text \<open>\<open>_toarray\<close>: the first \<open>nframes\<close> frames as one array; reading past the end of the
  series raises.\<close>

definition toarray :: "imageseries \<Rightarrow> int \<Rightarrow> py_error + image list" where
  "toarray ims nframes =
     (if nframes < 0 then Inl ValueError
      else if int (length (frames ims)) < nframes then Inl IndexError
      else Inr (take (nat nframes) (frames ims)))"

text \<open>\<open>_chunk_ranges\<close>: start and end row of the current chunk.\<close>

definition chunk_ranges :: "int \<Rightarrow> int \<Rightarrow> int \<Rightarrow> py_error + int \<times> int" where
  "chunk_ranges nrows nchunk chunk =
     (if nchunk = 0 then Inl ZeroDivisionError
      else
        let csize = nrows div nchunk;
            rem = nrows mod nchunk
        in if chunk < rem
           then (let r0 = chunk * (csize + 1) in Inr (r0, r0 + csize + 1))
           else (let r0 = chunk * csize + rem in Inr (r0, r0 + csize)))"

text \<open>\<open>np.max(a, axis=0)\<close>: the maximum along the frame axis; it has no identity, so an
  empty stack raises.  \<open>np.maximum\<close> is the element-wise maximum of two images.\<close>

definition np_maximum :: "image \<Rightarrow> image \<Rightarrow> image" where
  "np_maximum a b = map2 (map2 max) a b"

definition np_max :: "image list \<Rightarrow> py_error + image" where
  "np_max a = (case a of [] \<Rightarrow> Inl ValueError | f # fs \<Rightarrow> Inr (foldl np_maximum f fs))"

text \<open>\<open>np.zeros((nr, nc))\<close>.\<close>

definition np_zeros :: "int \<Rightarrow> int \<Rightarrow> image" where
  "np_zeros nr nc = replicate (nat nr) (replicate (nat nc) 0)"

text \<open>
  The assignment \<open>img[r0:r1, :] = v\<close>.  numpy broadcasts \<open>v\<close> to the shape of the target
  slice: each dimension of \<open>v\<close> has the target's length or length 1; any other shape raises.
\<close>

definition np_broadcast_to :: "nat \<Rightarrow> nat \<Rightarrow> image \<Rightarrow> py_error + image" where
  "np_broadcast_to n w v =
     (if (length v = n \<or> length v = 1)
         \<and> list_all (\<lambda>row. length row = w \<or> length row = 1) v
      then Inr (map (\<lambda>i. let row = (if length v = 1 then hd v else v ! i)
                          in if length row = 1 then replicate w (hd row) else row)
                    [0..<n])
      else Inl ValueError)"

definition setitem_rows :: "image \<Rightarrow> int \<Rightarrow> int \<Rightarrow> image \<Rightarrow> py_error + image" where
  "setitem_rows img r0 r1 v =
     (let a = slice_index r0 (length img);
          b = slice_index r1 (length img);
          w = (case img of [] \<Rightarrow> 0 | row # _ \<Rightarrow> length row)
      in case np_broadcast_to (b - a) w v of
           Inl e \<Rightarrow> Inl e
         | Inr v' \<Rightarrow> Inr (take a img @ v' @ drop (a + (b - a)) img))"

text \<open>
  \<open>_chunk_op\<close>: run an operation on one chunk of image data.  Its first statement assigns
  \<open>nf = len(ims)\<close>, which replaces the value of the argument \<open>nf\<close>.
\<close>

definition chunk_op ::
  "(image list \<Rightarrow> py_error + image) \<Rightarrow> imageseries \<Rightarrow> int \<Rightarrow> int \<times> int \<times> image
     \<Rightarrow> py_error + image" where
  "chunk_op op ims nf chunk =
     (let nf = int (length (frames ims));
          nrows = fst (shape ims);
          ncols = snd (shape ims);
          i = fst chunk;
          nchunk = fst (snd chunk);
          img = snd (snd chunk)
      in case chunk_ranges nrows nchunk i of
           Inl e \<Rightarrow> Inl e
         | Inr (r0, r1) \<Rightarrow>
             (case toarray (rectangle r0 r1 0 ncols ims) nf of
                Inl e \<Rightarrow> Inl e
              | Inr a \<Rightarrow>
                  (case op a of
                     Inl e \<Rightarrow> Inl e
                   | Inr v \<Rightarrow> setitem_rows img r0 r1 v)))"

text \<open>The loop of \<open>max\<close> over \<open>range(nchunks)\<close>: each chunk's image feeds the next.\<close>

fun chunk_loop :: "imageseries \<Rightarrow> int \<Rightarrow> int \<Rightarrow> int list \<Rightarrow> image \<Rightarrow> py_error + image" where
  "chunk_loop ims nf nchunks [] img = Inr img"
| "chunk_loop ims nf nchunks (i # rest) img =
     (case chunk_op np_max ims nf (i, nchunks, img) of
        Inl e \<Rightarrow> Inl e
      | Inr img' \<Rightarrow> chunk_loop ims nf nchunks rest img')"

text \<open>
  \<open>max(ims, chunk=None, nframes=0)\<close>.  The memory budget \<open>STATS_BUFFER\<close> (half of the
  memory available when the module is loaded) is a parameter.  With \<open>nframes > 0\<close> the
  number of frames comes out of \<open>np.min\<close> as a numpy integer, and so does \<open>mem\<close>; numpy's
  integer division by zero gives 0 (with a warning), as \<open>div\<close> does.  Otherwise \<open>mem\<close> is a
  Python integer, and its division by a budget of zero raises.  Sizes are integers
  without bound; a numpy integer wraps at \<open>2^63\<close>, a size that no series has.
\<close>

definition max_ims ::
  "int \<Rightarrow> imageseries \<Rightarrow> (int \<times> int \<times> image) option \<Rightarrow> int \<Rightarrow> py_error + image" where
  "max_ims STATS_BUFFER ims chunk nframes =
     (let nf = nframes_of ims nframes
      in case chunk of
           None \<Rightarrow>
             (let nr = fst (shape ims);
                  nc = snd (shape ims);
                  mem = nf * nr * nc * itemsize ims
              in if STATS_BUFFER = 0 \<and> nframes \<le> 0 then Inl ZeroDivisionError
                 else
                   let nchunks = 1 + mem div STATS_BUFFER;
                       img = np_zeros nr nc
                   in chunk_loop ims nf nchunks [0..nchunks - 1] img)
         | Some c \<Rightarrow> chunk_op np_max ims nf c)"

text \<open>\<open>_old_max\<close>: the frame-by-frame running maximum over the first \<open>nf\<close> frames.\<close>

definition old_max :: "imageseries \<Rightarrow> int \<Rightarrow> py_error + image" where
  "old_max ims nframes =
     (let nf = nframes_of ims nframes
      in case frames ims of
           [] \<Rightarrow> Inl IndexError
         | f # fs \<Rightarrow>
             if int (length (frames ims)) < nf then Inl IndexError
             else Inr (foldl np_maximum f (take (nat (nf - 1)) fs)))"







definition in_band :: "int \<Rightarrow> int \<Rightarrow> int \<Rightarrow> int \<Rightarrow> bool" where
  "in_band R C i r =
     (case chunk_ranges R C i of Inl e \<Rightarrow> False | Inr (r0, r1) \<Rightarrow> r0 \<le> r \<and> r < r1)"

definition band_lo :: "int \<Rightarrow> int \<Rightarrow> int \<Rightarrow> int" where
  "band_lo R C i = (if i < R mod C then i * (R div C + 1) else i * (R div C) + R mod C)"

text \<open>A series of two frames of one pixel each.\<close>

definition ims_two :: imageseries where
  "ims_two = \<lparr>frames = [[[1]], [[5]]], shape = (1, 1), itemsize = 8\<rparr>"

section \<open>hexrd/fitting/calibration/structureless.py\<close>

text \<open>
  The calibration dataset maps an X-ray source name to a list of rings, and every ring
  maps a detector name to an \<open>N\<times>2\<close> array of measured pixel coordinates.  The Python
  dictionaries are association lists in insertion order; their keys are distinct.  A
  detector that sees nothing of a ring has no entry in the ring, or an array without rows.
\<close>

type_synonym xy_array = "(real \<times> real) list"
type_synonym angle_array = "(real \<times> real) list"
type_synonym ring = "(string \<times> xy_array) list"
type_synonym dataset = "(string \<times> ring list) list"

text \<open>
  The collaborators of the calibrator that are not among the sources are parameters:
  the instrument (of an arbitrary type \<open>'i\<close>) with the names of its detectors in order,
  \<open>panel.cart_to_angles\<close> under the instrument's current geometry and the active X-ray
  source, and the functions of \<open>lmfit_param_handling\<close> and \<open>lmfit.Parameters\<close> (of an
  arbitrary type \<open>'p\<close>).  A two-theta distortion object is its operation \<open>apply\<close>, reduced to
  the first column of what it returns; it reads the instrument too.
\<close>

record ('i, 'e, 'p) collaborators =
  detectors :: "'i \<Rightarrow> string list"
  cart_to_angles :: "'i \<Rightarrow> string \<Rightarrow> string \<Rightarrow> xy_array \<Rightarrow> angle_array"
  tth_parameter_prefixes :: "'i \<Rightarrow> (string \<rightharpoonup> string)"
  update_instrument_from_params :: "'i \<Rightarrow> 'p \<Rightarrow> 'e \<Rightarrow> 'i"
  create_instr_params :: "'i \<Rightarrow> 'e \<Rightarrow> (string \<times> real) list"
  create_tth_parameters ::
    "'i \<Rightarrow> (string \<times> (string \<rightharpoonup> angle_array) list) list \<Rightarrow> (string \<times> real) list"
  parameters_add_many :: "(string \<times> real) list \<Rightarrow> 'p"
  add_engineering_constraints :: "'p \<Rightarrow> string option \<Rightarrow> 'p"
  param_value :: "'p \<Rightarrow> (string \<rightharpoonup> real)"

type_synonym 'i distortion = "string \<rightharpoonup> ('i \<Rightarrow> string \<Rightarrow> xy_array \<Rightarrow> real list)"

record ('i, 'e, 'p) calibrator =
  instr :: 'i
  data :: dataset
  tth_distortion :: "'i distortion option"
  engineering_constraints :: "string option"
  euler_convention :: 'e
  params :: 'p

text \<open>A loop that appends one result per element and stops at the first exception.\<close>

fun traverse :: "('a \<Rightarrow> py_error + 'b) \<Rightarrow> 'a list \<Rightarrow> py_error + 'b list" where
  "traverse f [] = Inr []"
| "traverse f (x # xs) =
     (case f x of
        Inl e \<Rightarrow> Inl e
      | Inr y \<Rightarrow> (case traverse f xs of Inl e \<Rightarrow> Inl e | Inr ys \<Rightarrow> Inr (y # ys)))"

text \<open>
  \<open>meas_angles\<close>.  \<open>dict.fromkeys(self.instr.detectors)\<close> maps every detector to \<open>None\<close>;
  the loop over the ring's items looks the panel up (a name that is not a detector of the
  instrument raises) and stores the angles.
\<close>

fun ring_angles ::
  "('i, 'e, 'p) collaborators \<Rightarrow> 'i \<Rightarrow> string \<Rightarrow> (string \<rightharpoonup> angle_array)
     \<Rightarrow> ring \<Rightarrow> py_error + (string \<rightharpoonup> angle_array)" where
  "ring_angles ext ins xray_source ang_dict [] = Inr ang_dict"
| "ring_angles ext ins xray_source ang_dict ((det_name, meas_xy) # rest) =
     (if det_name \<in> set (detectors ext ins)
      then ring_angles ext ins xray_source
             (ang_dict(det_name \<mapsto> cart_to_angles ext ins xray_source det_name meas_xy)) rest
      else Inl KeyError)"

definition meas_angles ::
  "('i, 'e, 'p) collaborators \<Rightarrow> ('i, 'e, 'p) calibrator
     \<Rightarrow> py_error + (string \<times> (string \<rightharpoonup> angle_array) list) list" where
  "meas_angles ext c =
     traverse (\<lambda>(xray_source, rings).
                 case traverse (ring_angles ext (instr c) xray_source Map.empty) rings of
                   Inl e \<Rightarrow> Inl e
                 | Inr ang_list \<Rightarrow> Inr (xray_source, ang_list))
              (data c)"

text \<open>\<open>tth_correction\<close>: the systematic correction of every detector of every ring, or
  \<open>None\<close> everywhere when no distortion is configured.\<close>

fun ring_correction ::
  "'i distortion \<Rightarrow> 'i \<Rightarrow> string \<Rightarrow> (string \<rightharpoonup> real list)
     \<Rightarrow> ring \<Rightarrow> py_error + (string \<rightharpoonup> real list)" where
  "ring_correction td ins xray_source corr_dict [] = Inr corr_dict"
| "ring_correction td ins xray_source corr_dict ((det_name, meas_xy) # rest) =
     (case td det_name of
        None \<Rightarrow> Inl KeyError
      | Some sd \<Rightarrow>
          ring_correction td ins xray_source
            (corr_dict(det_name \<mapsto> sd ins xray_source meas_xy)) rest)"

definition tth_correction ::
  "('i, 'e, 'p) calibrator \<Rightarrow> py_error + (string \<times> (string \<rightharpoonup> real list) list) list" where
  "tth_correction c =
     traverse (\<lambda>(xray_source, rings).
                 case traverse (\<lambda>rng. case tth_distortion c of
                                         None \<Rightarrow> Inr Map.empty
                                       | Some td \<Rightarrow>
                                           ring_correction td (instr c) xray_source Map.empty rng)
                        rings of
                   Inl e \<Rightarrow> Inl e
                 | Inr corr_list \<Rightarrow> Inr (xray_source, corr_list))
              (data c)"

text \<open>\<open>make_lmfit_params\<close>: the parameter collection built from the instrument, the
  measured angles and the engineering constraint.\<close>

definition make_lmfit_params ::
  "('i, 'e, 'p) collaborators \<Rightarrow> ('i, 'e, 'p) calibrator \<Rightarrow> py_error + 'p" where
  "make_lmfit_params ext c =
     (case meas_angles ext c of
        Inl e \<Rightarrow> Inl e
      | Inr angles \<Rightarrow>
          let ps = create_instr_params ext (instr c) (euler_convention c)
                     @ create_tth_parameters ext (instr c) angles;
              params_dict = parameters_add_many ext ps
          in Inr (add_engineering_constraints ext params_dict (engineering_constraints c)))"

text \<open>
  A setter returns the calibrator it leaves behind and the exception it raised, if any:
  an attribute assigned before the exception stays assigned.  \<open>rebuild\<close> is the call
  \<open>self.make_lmfit_params()\<close>, which stores the new collection in \<open>self.params\<close>.
\<close>

definition rebuild ::
  "('i, 'e, 'p) collaborators \<Rightarrow> ('i, 'e, 'p) calibrator
     \<Rightarrow> ('i, 'e, 'p) calibrator \<times> py_error option" where
  "rebuild ext c =
     (case make_lmfit_params ext c of
        Inl e \<Rightarrow> (c, Some e)
      | Inr p \<Rightarrow> (c\<lparr>params := p\<rparr>, None))"

text \<open>
  The setter of \<open>engineering_constraints\<close>.  For a value that is not a valid setting the
  source evaluates \<open>map(valid_settings, str)\<close> to build its message; the arguments are in
  the wrong order, \<open>str\<close> is not iterable, and the call raises \<open>TypeError\<close> before any
  message exists.
\<close>

definition set_engineering_constraints ::
  "('i, 'e, 'p) collaborators \<Rightarrow> string option \<Rightarrow> ('i, 'e, 'p) calibrator
     \<Rightarrow> ('i, 'e, 'p) calibrator \<times> py_error option" where
  "set_engineering_constraints ext v c =
     (if v = engineering_constraints c then (c, None)
      else
        let valid_settings = [None, Some ''None'', Some ''TARDIS'']
        in if v \<notin> set valid_settings then (c, Some TypeError)
           else rebuild ext (c\<lparr>engineering_constraints := v\<rparr>))"



text \<open>The decimal digits of a natural number, as \<open>f'{prefix}{ii}'\<close> formats the ring index.\<close>

fun string_of_nat :: "nat \<Rightarrow> string" where
  "string_of_nat n =
     (if n < 10 then [char_of (48 + n)]
      else string_of_nat (n div 10) @ [char_of (48 + n mod 10)])"

definition np_degrees :: "real \<Rightarrow> real" where
  "np_degrees x = x * (180 / pi)"

text \<open>The in-place subtraction \<open>a -= b\<close> of one-dimensional arrays: \<open>b\<close> has the length of
  \<open>a\<close> or length 1, and any other length raises.\<close>

definition np_isub :: "real list \<Rightarrow> real list \<Rightarrow> py_error + real list" where
  "np_isub a b =
     (if length b = length a then Inr (map2 (-) a b)
      else if length b = 1 then Inr (map (\<lambda>x. x - hd b) a)
      else Inl ValueError)"

text \<open>\<open>np.hstack\<close> of a list of one-dimensional arrays; it needs at least one array.\<close>

definition np_hstack :: "real list list \<Rightarrow> py_error + real list" where
  "np_hstack arrs = (case arrs of [] \<Rightarrow> Inl ValueError | _ # _ \<Rightarrow> Inr (concat arrs))"

text \<open>
  The body of the innermost loop of \<open>calc_residual\<close> for one detector of one ring: \<open>None\<close>
  when the loop continues without appending, the appended array otherwise.
\<close>

definition residual_entry ::
  "('i, 'e, 'p) collaborators \<Rightarrow> 'p \<Rightarrow> string \<Rightarrow> nat
     \<Rightarrow> (string \<rightharpoonup> angle_array) \<Rightarrow> (string \<rightharpoonup> real list) \<Rightarrow> string
     \<Rightarrow> py_error + real list option" where
  "residual_entry ext ps pfx ii rng corr_rng det_name =
     (case rng det_name of
        None \<Rightarrow> Inr None
      | Some angs \<Rightarrow>
          if length angs = 0 then Inr None
          else
            (case param_value ext ps (pfx @ string_of_nat ii) of
               None \<Rightarrow> Inl KeyError
             | Some tth_rng \<Rightarrow>
                 let tth_updated = map (\<lambda>a. np_degrees (fst a)) angs;
                     delta_tth = map (\<lambda>t. t - tth_rng) tth_updated
                 in (case corr_rng det_name of
                       None \<Rightarrow> Inr (Some delta_tth)
                     | Some corr \<Rightarrow>
                         (case np_isub delta_tth (map np_degrees corr) of
                            Inl e \<Rightarrow> Inl e
                          | Inr d \<Rightarrow> Inr (Some d)))))"

definition appended :: "'a option list \<Rightarrow> 'a list" where
  "appended xs = concat (map (\<lambda>x. case x of None \<Rightarrow> [] | Some y \<Rightarrow> [y]) xs)"

text \<open>
  \<open>calc_residual\<close>.  The instrument is updated from the trial parameters first, in place;
  the function returns the updated instrument with the residual or the exception.
\<close>

definition residual_rings ::
  "('i, 'e, 'p) collaborators \<Rightarrow> 'i \<Rightarrow> 'p \<Rightarrow> string
     \<Rightarrow> ((string \<rightharpoonup> angle_array) \<times> (string \<rightharpoonup> real list)) list
     \<Rightarrow> py_error + real list list" where
  "residual_rings ext ins ps pfx zipped =
     (case traverse (\<lambda>(ii, rng, corr_rng).
                       case traverse (residual_entry ext ps pfx ii rng corr_rng)
                              (detectors ext ins) of
                         Inl e \<Rightarrow> Inl e
                       | Inr entries \<Rightarrow> Inr (appended entries))
             (zip [0..<length zipped] zipped) of
        Inl e \<Rightarrow> Inl e
      | Inr per_ring \<Rightarrow> Inr (concat per_ring))"

definition calc_residual ::
  "('i, 'e, 'p) collaborators \<Rightarrow> ('i, 'e, 'p) calibrator \<Rightarrow> 'p
     \<Rightarrow> 'i \<times> (py_error + real list)" where
  "calc_residual ext c ps =
     (let ins = update_instrument_from_params ext (instr c) ps (euler_convention c);
          c' = c\<lparr>instr := ins\<rparr>
      in case meas_angles ext c' of
           Inl e \<Rightarrow> (ins, Inl e)
         | Inr angles \<Rightarrow>
             (case tth_correction c' of
                Inl e \<Rightarrow> (ins, Inl e)
              | Inr corrections \<Rightarrow>
                  let prefixes = tth_parameter_prefixes ext ins
                  in case traverse
                            (\<lambda>xray_source.
                               case prefixes xray_source of
                                 None \<Rightarrow> Inl KeyError
                               | Some pfx \<Rightarrow>
                                   (case (map_of angles xray_source,
                                          map_of corrections xray_source) of
                                      (Some a, Some t) \<Rightarrow>
                                        residual_rings ext ins ps pfx (zip a t)
                                    | _ \<Rightarrow> Inl KeyError))
                            (map fst (data c')) of
                       Inl e \<Rightarrow> (ins, Inl e)
                     | Inr per_source \<Rightarrow> (ins, np_hstack (concat per_source))))"

text \<open>
  The residual as the specification words it.  One combination of X-ray source, ring and
  detector contributes, for every measured point, the measured two-theta in degrees
  minus the fitted two-theta of the ring, minus the correction in degrees when a
  correction is configured; a detector without an entry in the ring contributes nothing
  (and an entry without points contributes no element).  The flat vector concatenates
  the contributions over the sources, then the ring indices, then the detectors.
\<close>

definition entry_spec ::
  "(string \<Rightarrow> string \<Rightarrow> xy_array \<Rightarrow> angle_array) \<Rightarrow> (string \<Rightarrow> nat \<Rightarrow> real)
     \<Rightarrow> (string \<Rightarrow> string \<Rightarrow> xy_array \<Rightarrow> real list) option
     \<Rightarrow> string \<Rightarrow> nat \<Rightarrow> ring \<Rightarrow> string \<Rightarrow> real list" where
  "entry_spec angles_of fitted corr xray_source ii rng det_name =
     (case map_of rng det_name of
        None \<Rightarrow> []
      | Some meas_xy \<Rightarrow>
          map (\<lambda>k. np_degrees (fst (angles_of xray_source det_name meas_xy ! k))
                     - fitted xray_source ii
                     - (case corr of
                          None \<Rightarrow> 0
                        | Some f \<Rightarrow> np_degrees (f xray_source det_name meas_xy ! k)))
              [0..<length meas_xy])"

definition residual_spec ::
  "string list \<Rightarrow> (string \<Rightarrow> string \<Rightarrow> xy_array \<Rightarrow> angle_array) \<Rightarrow> (string \<Rightarrow> nat \<Rightarrow> real)
     \<Rightarrow> (string \<Rightarrow> string \<Rightarrow> xy_array \<Rightarrow> real list) option \<Rightarrow> dataset \<Rightarrow> real list" where
  "residual_spec dets angles_of fitted corr dat =
     concat (map (\<lambda>(xray_source, rings).
       concat (map (\<lambda>(ii, rng).
         concat (map (entry_spec angles_of fitted corr xray_source ii rng) dets))
         (zip [0..<length rings] rings)))
       dat)"

text \<open>
  An example set of collaborators, used to run the calibrator on concrete data: an
  instrument without state and with two detectors, a pixel's first coordinate read as
  its two-theta in degrees, parameters as a list of names and values, and a TARDIS
  constraint that adds one parameter.
\<close>

definition example_collaborators :: "(unit, unit, (string \<times> real) list) collaborators" where
  "example_collaborators =
     \<lparr>detectors = (\<lambda>ins. [''IMAGE-PLATE-2'', ''IMAGE-PLATE-4'']),
      cart_to_angles = (\<lambda>ins xray_source det_name xy. map (\<lambda>(x, y). (x * pi / 180, y)) xy),
      tth_parameter_prefixes = (\<lambda>ins. [''XRS1'' \<mapsto> ''XRS1_DS_ring_'']),
      update_instrument_from_params = (\<lambda>ins ps euler. ins),
      create_instr_params = (\<lambda>ins euler. [(''beam_energy'', 10)]),
      create_tth_parameters = (\<lambda>ins angles. [(''XRS1_DS_ring_0'', 30)]),
      parameters_add_many = (\<lambda>ps. ps),
      add_engineering_constraints =
        (\<lambda>ps tag. if tag = Some ''TARDIS'' then ps @ [(''tardis_distance_between_plates'', 23)]
                   else ps),
      param_value = map_of\<rparr>"

definition example_calibrator :: "(unit, unit, (string \<times> real) list) calibrator" where
  "example_calibrator =
     \<lparr>instr = (),
      data = [(''XRS1'', [[(''IMAGE-PLATE-2'', [(31, 7), (29, 8)]), (''IMAGE-PLATE-4'', [])], []])],
      tth_distortion = None,
      engineering_constraints = None,
      euler_convention = (),
      params = [(''beam_energy'', 10), (''XRS1_DS_ring_0'', 30)]\<rparr>"


text \<open>
  A calibrator with a two-theta distortion on both detectors, of one degree on the first
  and of two degrees on the second, with a second ring that the second detector alone
  sees, and with a fitted two-theta for either ring.
\<close>

definition distorted_calibrator :: "(unit, unit, (string \<times> real) list) calibrator" where
  "distorted_calibrator =
     \<lparr>instr = (),
      data = [(''XRS1'', [[(''IMAGE-PLATE-2'', [(31, 7), (29, 8)]), (''IMAGE-PLATE-4'', [])],
                         [(''IMAGE-PLATE-4'', [(41, 0)])]])],
      tth_distortion =
        Some [''IMAGE-PLATE-2'' \<mapsto> (\<lambda>ins xray_source xy. map (\<lambda>p. pi / 180) xy),
              ''IMAGE-PLATE-4'' \<mapsto> (\<lambda>ins xray_source xy. map (\<lambda>p. 2 * pi / 180) xy)],
      engineering_constraints = None,
      euler_convention = (),
      params = [(''beam_energy'', 10), (''XRS1_DS_ring_0'', 30), (''XRS1_DS_ring_1'', 40)]\<rparr>"

text \<open>A calibrator whose only ring has no measured point on any detector.\<close>

definition empty_calibrator :: "(unit, unit, (string \<times> real) list) calibrator" where
  "empty_calibrator = example_calibrator\<lparr>data := [(''XRS1'', [[]])]\<rparr>"

section \<open>hexrd/config/material.py\<close>

text \<open>
  The configuration holds the value of the key \<open>material:definitions\<close> and the working
  directory.  The file system is the predicate \<open>os.path.exists\<close>; paths are POSIX paths.
\<close>

record config =
  material_definitions :: string
  working_dir :: string

definition isabs :: "string \<Rightarrow> bool" where
  "isabs p = (case p of [] \<Rightarrow> False | ch # _ \<Rightarrow> ch = CHR ''/'')"

definition path_join :: "string \<Rightarrow> string \<Rightarrow> string" where
  "path_join a b =
     (if isabs b then b
      else if a = [] \<or> last a = CHR ''/'' then a @ b
      else a @ ''/'' @ b)"

text \<open>The message of the exception is the format string itself: the source raises it
  without applying it to a path.\<close>

definition definitions_message :: string where
  \<open>definitions_message = ''"material:definitions": "%s" does not exist''\<close>

definition definitions :: "(string \<Rightarrow> bool) \<Rightarrow> config \<Rightarrow> py_error + string" where
  "definitions path_exists cfg =
     (let temp = material_definitions cfg;
          temp = (if \<not> isabs temp then path_join (working_dir cfg) temp else temp)
      in if path_exists temp then Inr temp
         else Inl (IOError definitions_message))"

section \<open>Floating-point values\<close>

text \<open>
  Floating-point numbers are real numbers, and arithmetic on them is exact: the rounding
  of an operation is not modelled, so a statement below is about the code up to the
  rounding of its intermediate results.  Where the code's result turns on whether a
  stored number is exactly a given value (the norm of a stored barycenter against 1),
  the stored number is taken as it is and no particular value is assumed for it.  A
  value of type \<open>real option\<close> is the result of an operation that numpy does not always
  define: \<open>None\<close> is a result that is not finite (\<open>nan\<close>, as from \<open>0/0\<close> or from the inverse
  cosine outside \<open>[-1, 1]\<close>, or an infinity), and every operation on \<open>None\<close> gives \<open>None\<close>.
  The reals have one zero: the negative zero of the doubles, on which \<open>np.arctan2\<close>
  differs from the positive one, is not modelled, and \<open>np_arctan2\<close> below is \<open>np.arctan2\<close>
  on numbers whose zeros are positive.
\<close>

type_synonym npfloat = "real option"

definition np_divide :: "real \<Rightarrow> real \<Rightarrow> npfloat" where
  "np_divide x y = (if y = 0 then None else Some (x / y))"

definition np_arccos :: "real \<Rightarrow> npfloat" where
  "np_arccos x = (if - 1 \<le> x \<and> x \<le> 1 then Some (arccos x) else None)"

definition np_arctan2 :: "real \<Rightarrow> real \<Rightarrow> real" where
  "np_arctan2 y x =
     (if 0 < x then arctan (y / x)
      else if x < 0 then (if 0 \<le> y then arctan (y / x) + pi else arctan (y / x) - pi)
      else if 0 < y then pi / 2
      else if y < 0 then - (pi / 2)
      else 0)"

text \<open>\<open>pol.max()\<close>: no maximum of an empty array, and \<open>nan\<close> propagates.\<close>

definition np_amax :: "npfloat list \<Rightarrow> py_error + npfloat" where
  "np_amax xs =
     (case xs of
        [] \<Rightarrow> Inl ValueError
      | x # rest \<Rightarrow>
          Inr (foldl (\<lambda>a b. case (a, b) of (Some u, Some v) \<Rightarrow> Some (max u v) | _ \<Rightarrow> None)
                 x rest))"

type_synonym vec3 = "real \<times> real \<times> real"

definition norm3 :: "vec3 \<Rightarrow> real" where
  "norm3 v = (case v of (x, y, z) \<Rightarrow> sqrt (x * x + y * y + z * z))"

definition dot3 :: "vec3 \<Rightarrow> vec3 \<Rightarrow> real" where
  "dot3 u v = (case (u, v) of ((a, b, c), (x, y, z)) \<Rightarrow> a * x + b * y + c * z)"

definition cross3 :: "vec3 \<Rightarrow> vec3 \<Rightarrow> vec3" where
  "cross3 u v =
     (case (u, v) of ((a, b, c), (x, y, z)) \<Rightarrow> (b * z - c * y, c * x - a * z, a * y - b * x))"

definition div3 :: "vec3 \<Rightarrow> real \<Rightarrow> vec3" where
  "div3 v k = (case v of (x, y, z) \<Rightarrow> (x / k, y / k, z / k))"

section \<open>hexrd/instrument/cylindrical_detector.py\<close>

text \<open>The configuration a cylindrical detector inherits from the generic detector, as far
  as the derived geometry reads it.\<close>

record detector =
  rows :: int
  cols :: int
  pixel_size_row :: real
  pixel_size_col :: real
  tvec :: vec3

definition radius :: "detector \<Rightarrow> real" where
  "radius d = norm3 (tvec d)"

definition physical_size :: "detector \<Rightarrow> real \<times> real" where
  "physical_size d =
     (real_of_int (rows d) * pixel_size_row d, real_of_int (cols d) * pixel_size_col d)"

text \<open>\<open>angle_extent\<close>: \<open>sz = self.physical_size[1]\<close>, then \<open>sz / self.radius / 2.0\<close>.\<close>

definition angle_extent :: "detector \<Rightarrow> npfloat" where
  "angle_extent d =
     (let sz = snd (physical_size d)
      in case np_divide sz (radius d) of
           None \<Rightarrow> None
         | Some q \<Rightarrow> np_divide q 2)"

text \<open>A detector of two rows and four columns of unit pixels, one unit from the origin.\<close>

definition example_detector :: detector where
  "example_detector =
     \<lparr>rows = 2, cols = 4, pixel_size_row = 1, pixel_size_col = 1, tvec = (0, 0, 1)\<rparr>"

section \<open>hexrd/ipfcolor/sphere_sector.py\<close>

text \<open>
  Modelled from the spec: \<open>constants.sqrt_epsf\<close> (not among the sources) is the square root
  of the machine epsilon of double precision.
\<close>

definition epsf :: real where
  "epsf = 1 / 2 ^ 52"

definition sqrt_epsf :: real where
  "sqrt_epsf = sqrt epsf"

text \<open>
  numpy arrays are objects that several names can share, and \<open>check_norm\<close> writes into the
  array it is given.  Two-dimensional arrays therefore live in a store, addressed by
  natural numbers and held row by row with their element type: an array of doubles or
  an array of integers.  The vertex arrays of a sector and the array of directions a
  caller passes are addresses.  An address is a writable block of memory of its own:
  two arrays share memory exactly when they are the same address.  A view onto a part
  of another array (a slice, a transpose) is not represented; what is proved of an
  array that is not an array of the sector is proved of arrays that share no memory
  with the sector's.
  The barycenters are arrays of one dimension that the sector creates for itself;
  nothing writes to them after the construction, and they are values of the record.
\<close>

datatype ndarray = Float64 "real list list" | Int64 "int list list"

type_synonym addr = nat
type_synonym store = "addr \<Rightarrow> ndarray"

text \<open>The elements of an array as floating-point numbers, as arithmetic reads them.\<close>

definition array_values :: "ndarray \<Rightarrow> real list list" where
  "array_values a = (case a of Float64 m \<Rightarrow> m | Int64 m \<Rightarrow> map (map real_of_int) m)"

text \<open>
  The assignment of floating-point values to the elements of an array: an array of
  doubles takes them as they are, an array of integers takes each value cut to its
  integer part (the conversion of C, towards zero).
\<close>

definition c_cast :: "real \<Rightarrow> int" where
  "c_cast x = (if 0 \<le> x then \<lfloor>x\<rfloor> else \<lceil>x\<rceil>)"

definition array_assign :: "ndarray \<Rightarrow> real list list \<Rightarrow> ndarray" where
  "array_assign a m =
     (case a of
        Float64 _ \<Rightarrow> Float64 m
      | Int64 _ \<Rightarrow> Int64 (map (map c_cast) m))"

record sector =
  ntriangle :: nat
  vertices :: addr
  connectivity :: "nat list list"
  hemisphere :: string
  ntriangle_laue :: nat
  vertices_laue :: addr
  connectivity_laue :: "nat list list"
  hemisphere_laue :: string
  barycenter :: vec3
  barycenter_laue :: vec3

text \<open>An entry of \<open>pg2vertex\<close>: the number of triangles, the vertex array (\<open>3\<times>k\<close>, one vertex
  per column), the connectivity and the hemisphere.\<close>

type_synonym pg_entry = "nat \<times> addr \<times> nat list list \<times> string"

text \<open>The rows of an \<open>N\<times>3\<close> array as vectors; \<open>None\<close> for an array of another width.\<close>

definition row_of_vec3 :: "vec3 \<Rightarrow> real list" where
  "row_of_vec3 v = (case v of (x, y, z) \<Rightarrow> [x, y, z])"

definition vec3s_of_array :: "real list list \<Rightarrow> vec3 list option" where
  "vec3s_of_array m =
     (if list_all (\<lambda>r. length r = 3) m then Some (map (\<lambda>r. (r ! 0, r ! 1, r ! 2)) m)
      else None)"

text \<open>\<open>self.vertices[:,0]\<close>, the first column of a vertex array of three rows.\<close>

definition column0 :: "real list list \<Rightarrow> vec3 option" where
  "column0 m =
     (case m of
        [x # _, y # _, z # _] \<Rightarrow> Some (x, y, z)
      | _ \<Rightarrow> None)"

text \<open>
  \<open>np.mean(self.vertices, axis=1)\<close> divided by its norm.  The result is \<open>None\<close> for a vertex
  array from which numpy gets no finite vector of three components: it raises on the
  empty list of the entries without triangles, and a mean of norm zero gives \<open>nan\<close>.
  The division is exact here and gives a vector of norm 1; the doubles that the source
  stores have a norm that rounding leaves at 1, just below or just above.  The theorems
  on the colouring do not rely on the norm of a barycenter being 1.
\<close>

definition unit_mean :: "real list list \<Rightarrow> vec3 option" where
  "unit_mean m =
     (case m of
        [r0, r1, r2] \<Rightarrow>
          if r0 = [] \<or> r1 = [] \<or> r2 = [] then None
          else
            let b = (sum_list r0 / real (length r0),
                     sum_list r1 / real (length r1),
                     sum_list r2 / real (length r2))
            in if norm3 b = 0 then None else Some (div3 b (norm3 b))
      | _ \<Rightarrow> None)"

text \<open>\<open>sector.__init__\<close>, given the two entries of \<open>pg2vertex\<close> that the symbols select.\<close>

definition sector_init :: "store \<Rightarrow> pg_entry \<Rightarrow> pg_entry \<Rightarrow> py_error + sector" where
  "sector_init st pg laue =
     (case (pg, laue) of
        ((nt, vs, conn, hemi), (ntl, vsl, connl, hemil)) \<Rightarrow>
          if nt \<noteq> 0
          then (case (unit_mean (array_values (st vs)), unit_mean (array_values (st vsl))) of
                  (Some b, Some bl) \<Rightarrow>
                    Inr \<lparr>ntriangle = nt, vertices = vs, connectivity = conn, hemisphere = hemi,
                         ntriangle_laue = ntl, vertices_laue = vsl, connectivity_laue = connl,
                         hemisphere_laue = hemil, barycenter = b, barycenter_laue = bl\<rparr>
                | _ \<Rightarrow> Inl ValueError)
          else Inr \<lparr>ntriangle = nt, vertices = vs, connectivity = conn, hemisphere = hemi,
                    ntriangle_laue = ntl, vertices_laue = vsl, connectivity_laue = connl,
                    hemisphere_laue = hemil, barycenter = (0, 0, 1), barycenter_laue = (0, 0, 1)\<rparr>)"

text \<open>
  \<open>check_norm\<close>: every row whose norm exceeds \<open>eps\<close> is divided by its norm, in place.  The
  division by \<open>np.tile(n,[3,1]).T\<close> fits arrays of three columns only; for another width it
  raises before anything is written.  The quotients are doubles; written into an array
  of integers they are cut to their integer parts.  (Writing back the rows that are
  not divided, as this definition does, leaves them as they are.)
\<close>

definition normalize_row :: "vec3 \<Rightarrow> vec3" where
  "normalize_row v = (let n = norm3 v in if n > sqrt_epsf then div3 v n else v)"

definition check_norm_rows :: "vec3 list \<Rightarrow> vec3 list" where
  "check_norm_rows vs = map normalize_row vs"

definition check_norm :: "store \<Rightarrow> addr \<Rightarrow> py_error + store" where
  "check_norm st dir3 =
     (case vec3s_of_array (array_values (st dir3)) of
        None \<Rightarrow> Inl ValueError
      | Some vs \<Rightarrow>
          Inr (st(dir3 := array_assign (st dir3) (map row_of_vec3 (check_norm_rows vs)))))"

text \<open>The directions \<open>check_norm\<close> has left at an address.\<close>

definition directions :: "store \<Rightarrow> addr \<Rightarrow> vec3 list" where
  "directions st dir3 = map (\<lambda>r. (r ! 0, r ! 1, r ! 2)) (array_values (st dir3))"

text \<open>
  \<open>calc_azi_rho\<close>.  The vertex array and the barycenter are read after \<open>check_norm\<close> has
  run.  \<open>n1\<close> is \<open>None\<close> when the cross product of barycenter and reference direction has
  norm zero (\<open>0/0\<close> in every component).
\<close>

definition azi_rho_row :: "vec3 option \<Rightarrow> vec3 \<Rightarrow> vec3 \<Rightarrow> npfloat" where
  "azi_rho_row n1 b v =
     (let n2 = cross3 b v;
          mask = norm3 n2 > sqrt_epsf;
          n2 = (if mask then div3 n2 (norm3 n2) else n2);
          dp = (if mask then (case n1 of None \<Rightarrow> None | Some n \<Rightarrow> Some (dot3 n n2))
                else Some 0)
      in case dp of
           None \<Rightarrow> None
         | Some x \<Rightarrow>
             (case np_arccos x of
                None \<Rightarrow> None
              | Some rho \<Rightarrow> Some (if x < 0 then rho + pi else rho)))"

definition calc_azi_rho ::
  "sector \<Rightarrow> store \<Rightarrow> addr \<Rightarrow> bool \<Rightarrow> store \<times> (py_error + npfloat list)" where
  "calc_azi_rho s st dir3 laueswitch =
     (case check_norm st dir3 of
        Inl e \<Rightarrow> (st, Inl e)
      | Inr st1 \<Rightarrow>
          let rx = (if \<not> laueswitch
                    then (if ntriangle s \<noteq> 0 then column0 (array_values (st1 (vertices s)))
                          else Some (1, 0, 0))
                    else (if ntriangle s \<noteq> 0
                          then column0 (array_values (st1 (vertices_laue s)))
                          else Some (1, 0, 0)));
              b = (if \<not> laueswitch then barycenter s else barycenter_laue s)
          in case rx of
               None \<Rightarrow> (st1, Inl TypeError)
             | Some rx \<Rightarrow>
                 if ntriangle s \<noteq> 0
                 then
                   let n1 = cross3 b rx;
                       n1 = (if norm3 n1 = 0 then None else Some (div3 n1 (norm3 n1)))
                   in (st1, Inr (map (azi_rho_row n1 b) (directions st1 dir3)))
                 else
                   (st1, Inr (map (\<lambda>v. case v of (x, y, z) \<Rightarrow> Some (np_arctan2 y x + pi))
                              (directions st1 dir3))))"

text \<open>\<open>calc_pol_theta\<close>: the angle to the barycenter, then \<open>pol*np.pi/pol.max()\<close>.\<close>

definition pol_angles :: "vec3 \<Rightarrow> vec3 list \<Rightarrow> npfloat list" where
  "pol_angles b vs = map (\<lambda>v. np_arccos (dot3 b v)) vs"

definition pol_rescale :: "npfloat list \<Rightarrow> py_error + npfloat list" where
  "pol_rescale pol =
     (case np_amax pol of
        Inl e \<Rightarrow> Inl e
      | Inr m \<Rightarrow>
          Inr (map (\<lambda>p. case (p, m) of
                          (Some x, Some mx) \<Rightarrow> np_divide (x * pi) mx
                        | _ \<Rightarrow> None) pol))"

definition calc_pol_theta ::
  "sector \<Rightarrow> store \<Rightarrow> addr \<Rightarrow> bool \<Rightarrow> store \<times> (py_error + npfloat list)" where
  "calc_pol_theta s st dir3 laueswitch =
     (case check_norm st dir3 of
        Inl e \<Rightarrow> (st, Inl e)
      | Inr st1 \<Rightarrow>
          let pol = (if \<not> laueswitch then pol_angles (barycenter s) (directions st1 dir3)
                     else pol_angles (barycenter_laue s) (directions st1 dir3))
          in (st1, pol_rescale pol))"

definition calc_hue ::
  "sector \<Rightarrow> store \<Rightarrow> addr \<Rightarrow> bool \<Rightarrow> store \<times> (py_error + npfloat list)" where
  "calc_hue s st dir3 laueswitch =
     (case calc_azi_rho s st dir3 laueswitch of
        (st1, Inl e) \<Rightarrow> (st1, Inl e)
      | (st1, Inr rho) \<Rightarrow> (st1, Inr (map (map_option (\<lambda>r. r / 2 / pi)) rho)))"

definition calc_saturation :: "npfloat list \<Rightarrow> bool \<Rightarrow> npfloat list" where
  "calc_saturation L laueswitch = map (map_option (\<lambda>l. 1 - 2 * 0.25 * \<bar>l - 0.5\<bar>)) L"

definition calc_lightness ::
  "sector \<Rightarrow> store \<Rightarrow> addr \<Rightarrow> bool \<Rightarrow> store \<times> (py_error + npfloat list)" where
  "calc_lightness s st dir3 laueswitch =
     (case calc_pol_theta s st dir3 laueswitch of
        (st1, Inl e) \<Rightarrow> (st1, Inl e)
      | (st1, Inr theta) \<Rightarrow>
          (st1, Inr (map (map_option (\<lambda>t. let f1 = t / pi;
                                             f2 = (sin (t / 2)) ^ 2;
                                             L = 0.25 * f1 + 0.75 * f2
                                         in 1 - L)) theta)))"

text \<open>\<open>get_color\<close>: one row \<open>(H, S, L)\<close> for every direction.\<close>

definition get_color ::
  "sector \<Rightarrow> store \<Rightarrow> addr \<Rightarrow> bool
     \<Rightarrow> store \<times> (py_error + (npfloat \<times> npfloat \<times> npfloat) list)" where
  "get_color s st dir3 laueswitch =
     (case calc_hue s st dir3 laueswitch of
        (st1, Inl e) \<Rightarrow> (st1, Inl e)
      | (st1, Inr H) \<Rightarrow>
          (case calc_lightness s st1 dir3 laueswitch of
             (st2, Inl e) \<Rightarrow> (st2, Inl e)
           | (st2, Inr L) \<Rightarrow>
               let S = calc_saturation L laueswitch
               in (st2, Inr (zip H (zip S L)))))"

text \<open>
  Four entries of \<open>pg2vertex\<close>, with their vertex arrays in a store at the position of the
  entry in the table: \<open>c1\<close> and its Laue group \<open>ci\<close> (no triangle, an empty list of
  vertices), \<open>c4v\<close> and its Laue group \<open>d4h\<close> (one triangle; the array is the transpose of
  the rows \<open>(0,0,1)\<close>, \<open>(1,0,0)\<close>, \<open>(1/\<surd>2, 1/\<surd>2, 0)\<close>).
\<close>

definition pg2vertex_c1 :: pg_entry where
  "pg2vertex_c1 = (0, 0, [], ''both'')"

definition pg2vertex_ci :: pg_entry where
  "pg2vertex_ci = (0, 1, [], ''upper'')"

definition pg2vertex_c4v :: pg_entry where
  "pg2vertex_c4v = (1, 12, [[0, 1, 2]], ''both'')"

definition pg2vertex_d4h :: pg_entry where
  "pg2vertex_d4h = (1, 14, [[0, 1, 2]], ''upper'')"

definition pg2vertex_arrays :: store where
  "pg2vertex_arrays =
     (\<lambda>a. Float64 [])
       (12 := Float64 [[0, 1, 1 / sqrt 2], [0, 0, 1 / sqrt 2], [1, 0, 0]],
        14 := Float64 [[0, 1, 1 / sqrt 2], [0, 0, 1 / sqrt 2], [1, 0, 0]])"

text \<open>The sectors \<open>sector('c1', 'ci')\<close> and \<open>sector('c4v', 'd4h')\<close>, the second with its
  barycenter as exact arithmetic gives it, and once more with the barycenter cut to
  four decimal places, a stored barycenter whose norm is below 1.\<close>

definition sector_c1 :: sector where
  "sector_c1 =
     \<lparr>ntriangle = 0, vertices = 0, connectivity = [], hemisphere = ''both'',
      ntriangle_laue = 0, vertices_laue = 1, connectivity_laue = [], hemisphere_laue = ''upper'',
      barycenter = (0, 0, 1), barycenter_laue = (0, 0, 1)\<rparr>"

definition mean_c4v :: vec3 where
  "mean_c4v = ((0 + 1 + 1 / sqrt 2) / 3, (0 + 0 + 1 / sqrt 2) / 3, (1 + 0 + 0) / 3)"

definition sector_c4v :: sector where
  "sector_c4v =
     \<lparr>ntriangle = 1, vertices = 12, connectivity = [[0, 1, 2]], hemisphere = ''both'',
      ntriangle_laue = 1, vertices_laue = 14, connectivity_laue = [[0, 1, 2]],
      hemisphere_laue = ''upper'',
      barycenter = div3 mean_c4v (norm3 mean_c4v),
      barycenter_laue = div3 mean_c4v (norm3 mean_c4v)\<rparr>"


text \<open>A store with one more array at address 100: a batch of one direction in doubles,
  or a batch of integers.\<close>

definition with_batch :: "vec3 \<Rightarrow> store" where
  "with_batch v = pg2vertex_arrays(100 := Float64 [row_of_vec3 v])"

definition with_int_batch :: "int list list \<Rightarrow> store" where
  "with_int_batch m = pg2vertex_arrays(100 := Int64 m)"
section \<open>Properties of the image-series statistics\<close>

lemma chunk_ranges_eq:
  assumes "C \<noteq> 0"
  shows "chunk_ranges R C i = Inr (band_lo R C i, band_lo R C i + R div C + (if i < R mod C then 1 else 0))"
  using assms by (simp add: chunk_ranges_def band_lo_def Let_def)

lemma band_lo_next:
  assumes "1 \<le> C"
  shows "band_lo R C (i + 1) = band_lo R C i + R div C + (if i < R mod C then 1 else 0)"
  by (auto simp: band_lo_def algebra_simps)

lemma band_lo_0:
  assumes "1 \<le> C"
  shows "band_lo R C 0 = 0"
proof -
  have "0 < C" using assms by simp
  then have "0 \<le> R mod C" by (rule pos_mod_sign)
  then show ?thesis by (simp add: band_lo_def)
qed

lemma band_lo_C:
  assumes "1 \<le> C"
  shows "band_lo R C C = R"
proof -
  have "0 < C" using assms by simp
  then have "R mod C < C" by (rule pos_mod_bound)
  then have "band_lo R C C = C * (R div C) + R mod C" by (simp add: band_lo_def)
  then show ?thesis by simp
qed

lemma band_lo_step_mono:
  assumes "0 \<le> R" "1 \<le> C"
  shows "band_lo R C i \<le> band_lo R C (i + 1)"
proof -
  have "0 \<le> R div C" using assms by (simp add: pos_imp_zdiv_nonneg_iff)
  then show ?thesis using band_lo_next [OF assms(2), of R i] by simp
qed

lemma band_lo_mono_nat:
  assumes "0 \<le> R" "1 \<le> C"
  shows "band_lo R C i \<le> band_lo R C (i + int k)"
proof (induction k)
  case 0
  show ?case by simp
next
  case (Suc k)
  have "band_lo R C (i + int k) \<le> band_lo R C (i + int k + 1)"
    by (rule band_lo_step_mono [OF assms])
  moreover have "i + int k + 1 = i + int (Suc k)" by simp
  ultimately show ?case using Suc by simp
qed

lemma band_lo_mono:
  assumes "0 \<le> R" "1 \<le> C" "i \<le> j"
  shows "band_lo R C i \<le> band_lo R C j"
proof -
  from assms(3) have "j = i + int (nat (j - i))" by simp
  then show ?thesis using band_lo_mono_nat [OF assms(1,2), of i "nat (j - i)"] by simp
qed

lemma band_exists_nat:
  assumes "0 \<le> R" "1 \<le> C" "0 \<le> r"
  shows "r < band_lo R C (int n) \<Longrightarrow>
         \<exists>i. 0 \<le> i \<and> i < int n \<and> band_lo R C i \<le> r \<and> r < band_lo R C (i + 1)"
proof (induction n)
  case 0
  then show ?case using band_lo_0 [OF assms(2), of R] assms(3) by simp
next
  case (Suc n)
  show ?case
  proof (cases "r < band_lo R C (int n)")
    case True
    from Suc.IH [OF True] obtain i where
      "0 \<le> i" "i < int n" "band_lo R C i \<le> r" "r < band_lo R C (i + 1)" by blast
    then show ?thesis by (intro exI [of _ i]) simp
  next
    case False
    with Suc.prems show ?thesis
      by (intro exI [of _ "int n"]) (simp add: add.commute)
  qed
qed

lemma band_unique:
  assumes "0 \<le> R" "1 \<le> C"
    and i: "band_lo R C i \<le> r" "r < band_lo R C (i + 1)"
    and j: "band_lo R C j \<le> r" "r < band_lo R C (j + 1)"
  shows "i = j"
proof (rule ccontr)
  assume "i \<noteq> j"
  then consider "i + 1 \<le> j" | "j + 1 \<le> i" by linarith
  then show False
  proof cases
    case 1
    from band_lo_mono [OF assms(1,2) 1] i j show False by linarith
  next
    case 2
    from band_lo_mono [OF assms(1,2) 2] i j show False by linarith
  qed
qed

lemma in_band_iff:
  assumes "1 \<le> C"
  shows "in_band R C i r \<longleftrightarrow> band_lo R C i \<le> r \<and> r < band_lo R C (i + 1)"
proof -
  have "C \<noteq> 0" using assms by simp
  then show ?thesis
    unfolding in_band_def chunk_ranges_eq [OF \<open>C \<noteq> 0\<close>] band_lo_next [OF assms]
    by (simp add: add.assoc)
qed

text \<open>
  Claim C8.  For a total of \<open>R \<ge> 1\<close> rows and \<open>C \<ge> 1\<close> chunks, band \<open>i\<close> of \<open>_chunk_ranges\<close> has
  \<open>R div C\<close> rows and one more when \<open>i < R mod C\<close>; it starts at \<open>i\<cdot>(size+1)\<close> when
  \<open>i < R mod C\<close> and at \<open>i\<cdot>size + R mod C\<close> otherwise; it lies inside \<open>[0, R)\<close>; every row of
  \<open>[0, R)\<close> is in exactly one of the \<open>C\<close> bands; and \<open>_chunk_ranges(10, 3, i)\<close> is \<open>(0,4)\<close>, \<open>(4,7)\<close>,
  \<open>(7,10)\<close> for \<open>i = 0, 1, 2\<close>.
\<close>

theorem chunk_ranges_partition:
  assumes "1 \<le> R" and "1 \<le> C"
  shows "(\<forall>i. 0 \<le> i \<and> i < C \<longrightarrow>
            (\<exists>r0 r1. chunk_ranges R C i = Inr (r0, r1)
               \<and> r1 - r0 = R div C + (if i < R mod C then 1 else 0)
               \<and> r0 = (if i < R mod C then i * (R div C + 1) else i * (R div C) + R mod C)
               \<and> 0 \<le> r0 \<and> r1 \<le> R))
       \<and> (\<forall>r. 0 \<le> r \<and> r < R \<longrightarrow> (\<exists>!i. 0 \<le> i \<and> i < C \<and> in_band R C i r))
       \<and> chunk_ranges 10 3 0 = Inr (0, 4)
       \<and> chunk_ranges 10 3 1 = Inr (4, 7)
       \<and> chunk_ranges 10 3 2 = Inr (7, 10)"
proof (intro conjI allI impI)
  fix i assume i: "0 \<le> i \<and> i < C"
  have C0: "C \<noteq> 0" and R0: "0 \<le> R" using assms by simp_all
  have lo: "0 \<le> band_lo R C i"
    using band_lo_mono [OF R0 assms(2), of 0 i] band_lo_0 [OF assms(2), of R] i by simp
  have hi: "band_lo R C (i + 1) \<le> R"
    using band_lo_mono [OF R0 assms(2), of "i + 1" C] band_lo_C [OF assms(2), of R] i by simp
  show "\<exists>r0 r1. chunk_ranges R C i = Inr (r0, r1)
               \<and> r1 - r0 = R div C + (if i < R mod C then 1 else 0)
               \<and> r0 = (if i < R mod C then i * (R div C + 1) else i * (R div C) + R mod C)
               \<and> 0 \<le> r0 \<and> r1 \<le> R"
    using lo hi unfolding chunk_ranges_eq [OF C0] band_lo_next [OF assms(2)]
    by (simp add: band_lo_def add.assoc)
next
  fix r assume r: "0 \<le> r \<and> r < R"
  have R0: "0 \<le> R" using assms by simp
  have "r < band_lo R C (int (nat C))" using r band_lo_C [OF assms(2), of R] assms(2) by simp
  from band_exists_nat [OF R0 assms(2) _ this] r obtain i where
    i: "0 \<le> i" "i < C" "band_lo R C i \<le> r" "r < band_lo R C (i + 1)"
    using assms(2) by auto
  show "\<exists>!i. 0 \<le> i \<and> i < C \<and> in_band R C i r"
  proof (rule ex1I [of _ i])
    show "0 \<le> i \<and> i < C \<and> in_band R C i r" using i in_band_iff [OF assms(2)] by simp
  next
    fix j assume "0 \<le> j \<and> j < C \<and> in_band R C j r"
    then have "band_lo R C j \<le> r" "r < band_lo R C (j + 1)"
      using in_band_iff [OF assms(2)] by simp_all
    from band_unique [OF R0 assms(2) this i(3,4)] show "j = i" .
  qed
qed (simp_all add: chunk_ranges_def)

text \<open>The theorem at \<open>R = 10\<close>, \<open>C = 3\<close>: row 5 is in band 1 and in no other.\<close>

theorem chunk_ranges_partition_witness:
  "(1::int) \<le> 10 \<and> (1::int) \<le> 3 \<and> (\<exists>!i. 0 \<le> i \<and> i < 3 \<and> in_band 10 3 i 5) \<and> in_band 10 3 1 5
    \<and> chunk_ranges 10 3 1 = Inr (4, 7)"
  using chunk_ranges_partition [of 10 3] by (simp add: in_band_def chunk_ranges_def)










text \<open>\<open>_chunk_op\<close> does not read the number of frames it is given.\<close>

lemma chunk_op_ignores_nf: "chunk_op op ims nf chunk = chunk_op op ims nf' chunk"
  by (simp add: chunk_op_def)

text \<open>
  Claim C1 (fails on the code).  On the series of the two one-pixel frames \<open>1\<close> and \<open>5\<close>, with
  \<open>nframes = 1\<close>: \<open>_nframes\<close> gives 1 and the maximum over the first frame is \<open>1\<close> (as
  \<open>_old_max\<close> computes it), but \<open>max\<close> returns \<open>5\<close>, the maximum over both frames, on the
  automatic path and on the path with an explicit chunk descriptor.
\<close>

theorem max_ignores_frame_count:
  "nframes_of ims_two 1 = 1
   \<and> old_max ims_two 1 = Inr [[1]]
   \<and> max_ims 1000 ims_two None 1 = Inr [[5]]
   \<and> max_ims 1000 ims_two (Some (0, 1, [[0]])) 1 = Inr [[5]]"
  by (simp add: max_ims_def old_max_def ims_two_def nframes_of_def np_zeros_def chunk_op_def
        chunk_ranges_def rectangle_def toarray_def np_max_def np_maximum_def setitem_rows_def
        np_broadcast_to_def slice_index_def py_slice_def upto.simps)

section \<open>Properties of the structureless calibrator\<close>

lemma traverse_Inr:
  assumes "\<And>x. x \<in> set xs \<Longrightarrow> f x = Inr (g x)"
  shows "traverse f xs = Inr (map g xs)"
  using assms by (induction xs) simp_all

lemma ring_angles_map:
  assumes "distinct (map fst rng)" and "set (map fst rng) \<subseteq> set (detectors ext ins)"
  shows "ring_angles ext ins src acc rng =
           Inr (\<lambda>det. case map_of rng det of
                         None \<Rightarrow> acc det
                       | Some xy \<Rightarrow> Some (cart_to_angles ext ins src det xy))"
  using assms
proof (induction rng arbitrary: acc)
  case Nil
  then show ?case by simp
next
  case (Cons a rng)
  obtain d xy where a: "a = (d, xy)" by (cases a)
  have d: "d \<in> set (detectors ext ins)" and notin: "d \<notin> fst ` set rng"
    using Cons.prems a by auto
  have nd: "map_of rng d = None" using notin by (simp add: map_of_eq_None_iff)
  have "ring_angles ext ins src acc (a # rng) =
          ring_angles ext ins src (acc(d \<mapsto> cart_to_angles ext ins src d xy)) rng"
    using a d by simp
  also have "\<dots> = Inr (\<lambda>det. case map_of rng det of
                         None \<Rightarrow> (acc(d \<mapsto> cart_to_angles ext ins src d xy)) det
                       | Some xy' \<Rightarrow> Some (cart_to_angles ext ins src det xy'))"
    using Cons.prems by (intro Cons.IH) simp_all
  also have "\<dots> = Inr (\<lambda>det. case map_of (a # rng) det of
                         None \<Rightarrow> acc det
                       | Some xy \<Rightarrow> Some (cart_to_angles ext ins src det xy))"
    using nd a by (auto simp: fun_eq_iff split: option.splits)
  finally show ?case .
qed


lemma zip_enumerate_map:
  "zip [0..<length (zip (map f xs) (map g xs))] (zip (map f xs) (map g xs)) =
     map (\<lambda>(i, x). (i, f x, g x)) (zip [0..<length xs] xs)"
  by (rule nth_equalityI) simp_all

lemma map_of_map_snd:
  "map_of (map (\<lambda>(k, v). (k, f k v)) xs) k = map_option (f k) (map_of xs k)"
  by (induction xs) auto

lemma appended_concat:
  "concat (appended (map (\<lambda>x. if g x = [] then None else Some (g x)) xs)) = concat (map g xs)"
  by (induction xs) (simp_all add: appended_def)

lemma appended_nonempty:
  "[] \<notin> set (appended (map (\<lambda>x. if g x = [] then None else Some (g x)) xs))"
  by (induction xs) (simp_all add: appended_def)

lemma concat_concat_map:
  "concat (concat xss) = concat (map concat xss)"
  by (induction xss) simp_all

lemma concat_nonempty_parts:
  assumes "[] \<notin> set xss"
  shows "concat xss = [] \<longleftrightarrow> xss = []"
  using assms by (cases xss) auto

lemma residual_entry_spec:
  assumes len: "\<And>xy. length (cart_to_angles ext ins src det xy) = length xy"
    and par: "\<And>xy. map_of rng det = Some xy \<Longrightarrow> xy \<noteq> [] \<Longrightarrow>
                param_value ext ps (pfx @ string_of_nat ii) = Some (fitted src ii)"
    and cor: "\<And>f xy. corr = Some f \<Longrightarrow> length (f src det xy) = length xy"
  shows "residual_entry ext ps pfx ii
           (\<lambda>d. map_option (cart_to_angles ext ins src d) (map_of rng d))
           (\<lambda>d. case corr of None \<Rightarrow> None | Some f \<Rightarrow> map_option (f src d) (map_of rng d))
           det
         = Inr (let e = entry_spec (cart_to_angles ext ins) fitted corr src ii rng det
                in if e = [] then None else Some e)"
proof (cases "map_of rng det")
  case None
  then show ?thesis by (simp add: residual_entry_def entry_spec_def)
next
  case (Some xy)
  show ?thesis
  proof (cases "xy = []")
    case True
    with Some len show ?thesis by (simp add: residual_entry_def entry_spec_def)
  next
    case False
    note p = par [OF Some False]
    show ?thesis
    proof (cases corr)
      case None
      have "map (\<lambda>t. t - fitted src ii) (map (\<lambda>a. np_degrees (fst a)) (cart_to_angles ext ins src det xy))
              = map (\<lambda>k. np_degrees (fst (cart_to_angles ext ins src det xy ! k)) - fitted src ii - 0)
                  [0..<length xy]"
        using len by (intro nth_equalityI) simp_all
      with Some False None p len show ?thesis
        by (simp add: residual_entry_def entry_spec_def Let_def)
    next
      case (Some f)
      have l: "length (f src det xy) = length xy" by (rule cor [OF Some])
      have "map2 (-)
              (map (\<lambda>t. t - fitted src ii) (map (\<lambda>a. np_degrees (fst a)) (cart_to_angles ext ins src det xy)))
              (map np_degrees (f src det xy))
              = map (\<lambda>k. np_degrees (fst (cart_to_angles ext ins src det xy ! k)) - fitted src ii
                          - np_degrees (f src det xy ! k))
                  [0..<length xy]"
        using len l by (intro nth_equalityI) simp_all
      with \<open>map_of rng det = Some xy\<close> False Some p len l show ?thesis
        by (simp add: residual_entry_def entry_spec_def Let_def np_isub_def)
    qed
  qed
qed


lemma ring_correction_map:
  assumes "distinct (map fst rng)" and "\<And>d. d \<in> fst ` set rng \<Longrightarrow> td d = Some (sd d)"
  shows "ring_correction td ins src acc rng =
           Inr (\<lambda>det. case map_of rng det of
                         None \<Rightarrow> acc det
                       | Some xy \<Rightarrow> Some (sd det ins src xy))"
  using assms
proof (induction rng arbitrary: acc)
  case Nil
  then show ?case by simp
next
  case (Cons a rng)
  obtain d xy where a: "a = (d, xy)" by (cases a)
  have d: "td d = Some (sd d)" and notin: "d \<notin> fst ` set rng"
    using Cons.prems a by auto
  have nd: "map_of rng d = None" using notin by (simp add: map_of_eq_None_iff)
  have "ring_correction td ins src acc (a # rng) =
          ring_correction td ins src (acc(d \<mapsto> sd d ins src xy)) rng"
    using a d by simp
  also have "\<dots> = Inr (\<lambda>det. case map_of rng det of
                         None \<Rightarrow> (acc(d \<mapsto> sd d ins src xy)) det
                       | Some xy' \<Rightarrow> Some (sd det ins src xy'))"
    using Cons.prems by (intro Cons.IH) simp_all
  also have "\<dots> = Inr (\<lambda>det. case map_of (a # rng) det of
                         None \<Rightarrow> acc det
                       | Some xy \<Rightarrow> Some (sd det ins src xy))"
    using nd a by (auto simp: fun_eq_iff split: option.splits)
  finally show ?case .
qed


lemma traverse_keys:
  assumes "distinct (map fst xs)"
    and "\<And>k v. (k, v) \<in> set xs \<Longrightarrow> f k = Inr (g k v)"
  shows "traverse f (map fst xs) = Inr (map (\<lambda>(k, v). g k v) xs)"
  using assms
proof (induction xs)
  case Nil
  then show ?case by simp
next
  case (Cons a xs)
  obtain k v where a: "a = (k, v)" by (cases a)
  have "f k = Inr (g k v)" using Cons.prems(2) [of k v] a by simp
  moreover have "traverse f (map fst xs) = Inr (map (\<lambda>(k, v). g k v) xs)"
    using Cons.prems by (intro Cons.IH) simp_all
  ultimately show ?case using a by simp
qed

text \<open>
  Claim C2 (amended).  Let the keys of the dataset be distinct, let every ring name only
  detectors of the instrument, each at most once, let \<open>cart_to_angles\<close> return one angle
  pair per measured point, let every source of the dataset have a two-theta prefix, let
  every ring with a measured point have its fitted two-theta parameter, and let the
  configured distortion, if any, cover the detectors and return one correction per point.
  Then \<open>calc_residual\<close> returns the concatenation, over the sources, then the ring
  indices, then the detectors, of the contributions \<open>entry_spec\<close> (measured two-theta in
  degrees minus fitted two-theta minus the correction in degrees when one is configured;
  nothing for a detector without points) when that vector has an element, and raises
  \<open>ValueError\<close> when no combination has a measured point.
\<close>

theorem calc_residual_concatenates:
  fixes ext :: "('i, 'e, 'p) collaborators" and c :: "('i, 'e, 'p) calibrator"
  assumes ins: "ins = update_instrument_from_params ext (instr c) ps (euler_convention c)"
    and keys: "distinct (map fst (data c))"
    and rings: "\<forall>(src, rngs) \<in> set (data c). \<forall>rng \<in> set rngs.
                  distinct (map fst rng) \<and> fst ` set rng \<subseteq> set (detectors ext ins)"
    and len: "\<forall>src det xy. length (cart_to_angles ext ins src det xy) = length xy"
    and pre: "\<forall>src \<in> fst ` set (data c). tth_parameter_prefixes ext ins src = Some (pfx src)"
    and par: "\<forall>(src, rngs) \<in> set (data c). \<forall>ii < length rngs. \<forall>det xy.
                map_of (rngs ! ii) det = Some xy \<and> xy \<noteq> [] \<longrightarrow>
                param_value ext ps (pfx src @ string_of_nat ii) = Some (fitted src ii)"
    and cor: "(tth_distortion c = None \<and> corr = None)
              \<or> (\<exists>td sd. tth_distortion c = Some td
                    \<and> corr = Some (\<lambda>src det xy. sd det ins src xy)
                    \<and> (\<forall>det \<in> set (detectors ext ins). td det = Some (sd det))
                    \<and> (\<forall>src det xy. length (sd det ins src xy) = length xy))"
  shows "calc_residual ext c ps =
           (ins, let r = residual_spec (detectors ext ins) (cart_to_angles ext ins) fitted corr (data c)
                 in if r = [] then Inl ValueError else Inr r)"
proof -
  define dets where "dets = detectors ext ins"
  define c' where "c' = c\<lparr>instr := ins\<rparr>"
  define amap where
    "amap = (\<lambda>src rng d. map_option (cart_to_angles ext ins src d) (map_of rng d))"
  define cmap where
    "cmap = (\<lambda>src rng d. case corr of None \<Rightarrow> None | Some f \<Rightarrow> map_option (f src d) (map_of rng d))"
  define espec where
    "espec = (\<lambda>src ii rng det.
                let e = entry_spec (cart_to_angles ext ins) fitted corr src ii rng det
                in if e = [] then None else Some e)"
  have c'_simps [simp]: "instr c' = ins" "data c' = data c" "tth_distortion c' = tth_distortion c"
    by (simp_all add: c'_def)
  have ring_ok: "distinct (map fst rng)" "fst ` set rng \<subseteq> set (detectors ext ins)"
    if "(src, rngs) \<in> set (data c)" "rng \<in> set rngs" for src rngs rng
  proof -
    from rings that(1) have "\<forall>rng \<in> set rngs.
        distinct (map fst rng) \<and> fst ` set rng \<subseteq> set (detectors ext ins)" by fastforce
    with that(2) show "distinct (map fst rng)" "fst ` set rng \<subseteq> set (detectors ext ins)"
      by blast+
  qed
  \<comment> \<open>the measured angles\<close>
  have ra: "ring_angles ext ins src Map.empty rng = Inr (amap src rng)"
    if "(src, rngs) \<in> set (data c)" "rng \<in> set rngs" for src rngs rng
  proof -
    have "ring_angles ext ins src Map.empty rng =
            Inr (\<lambda>det. case map_of rng det of
                          None \<Rightarrow> Map.empty det
                        | Some xy \<Rightarrow> Some (cart_to_angles ext ins src det xy))"
      using ring_ok [OF that] by (intro ring_angles_map) simp_all
    also have "\<dots> = Inr (amap src rng)"
      by (auto simp: amap_def fun_eq_iff split: option.splits)
    finally show ?thesis .
  qed
  have MA: "meas_angles ext c' = Inr (map (\<lambda>(src, rngs). (src, map (amap src) rngs)) (data c))"
    unfolding meas_angles_def c'_simps
  proof (rule traverse_Inr [where g = "\<lambda>(src, rngs). (src, map (amap src) rngs)", simplified])
    fix x assume x: "x \<in> set (data c)"
    obtain src rngs where sr: "x = (src, rngs)" by (cases x)
    have "traverse (ring_angles ext ins src Map.empty) rngs = Inr (map (amap src) rngs)"
      using ra x sr by (intro traverse_Inr) auto
    then show "(case x of (xray_source, rings) \<Rightarrow>
                  case traverse (ring_angles ext ins xray_source Map.empty) rings of
                    Inl e \<Rightarrow> Inl e | Inr ang_list \<Rightarrow> Inr (xray_source, ang_list))
               = Inr (case x of (src, rngs) \<Rightarrow> (src, map (amap src) rngs))"
      using sr by simp
  qed
  \<comment> \<open>the corrections\<close>
  have rc: "(case tth_distortion c of
               None \<Rightarrow> Inr Map.empty
             | Some td \<Rightarrow> ring_correction td ins src Map.empty rng) = Inr (cmap src rng)"
    if "(src, rngs) \<in> set (data c)" "rng \<in> set rngs" for src rngs rng
    using cor
  proof (elim disjE conjE exE)
    assume "tth_distortion c = None" "corr = None"
    then show ?thesis by (simp add: cmap_def fun_eq_iff)
  next
    fix td sd
    assume td: "tth_distortion c = Some td"
      and corr: "corr = Some (\<lambda>src det xy. sd det ins src xy)"
      and all: "\<forall>det \<in> set (detectors ext ins). td det = Some (sd det)"
    have "ring_correction td ins src Map.empty rng =
            Inr (\<lambda>det. case map_of rng det of
                          None \<Rightarrow> Map.empty det
                        | Some xy \<Rightarrow> Some (sd det ins src xy))"
      using ring_ok [OF that] all by (intro ring_correction_map) auto
    also have "\<dots> = Inr (cmap src rng)"
      by (auto simp: cmap_def corr fun_eq_iff split: option.splits)
    finally show ?thesis using td by simp
  qed
  have TC: "tth_correction c' = Inr (map (\<lambda>(src, rngs). (src, map (cmap src) rngs)) (data c))"
    unfolding tth_correction_def c'_simps
  proof (rule traverse_Inr [where g = "\<lambda>(src, rngs). (src, map (cmap src) rngs)", simplified])
    fix x assume x: "x \<in> set (data c)"
    obtain src rngs where sr: "x = (src, rngs)" by (cases x)
    have "traverse (\<lambda>rng. case tth_distortion c of
                             None \<Rightarrow> Inr Map.empty
                           | Some td \<Rightarrow> ring_correction td ins src Map.empty rng) rngs
            = Inr (map (cmap src) rngs)"
      using rc x sr by (intro traverse_Inr) auto
    then show "(case x of (xray_source, rings) \<Rightarrow>
                  case traverse (\<lambda>rng. case tth_distortion c of
                                          None \<Rightarrow> Inr Map.empty
                                        | Some td \<Rightarrow>
                                            ring_correction td ins xray_source Map.empty rng)
                         rings of
                    Inl e \<Rightarrow> Inl e | Inr corr_list \<Rightarrow> Inr (xray_source, corr_list))
               = Inr (case x of (src, rngs) \<Rightarrow> (src, map (cmap src) rngs))"
      using sr by simp
  qed
  \<comment> \<open>one ring\<close>
  have corlen: "length (f src det xy) = length xy" if "corr = Some f" for f src det xy
    using cor that by auto
  have entry: "residual_entry ext ps (pfx src) ii (amap src (rngs ! ii)) (cmap src (rngs ! ii)) det
                 = Inr (espec src ii (rngs ! ii) det)"
    if "(src, rngs) \<in> set (data c)" "ii < length rngs" for src rngs ii det
    unfolding amap_def cmap_def espec_def
  proof (rule residual_entry_spec)
    show "length (cart_to_angles ext ins src det xy) = length xy" for xy using len by simp
    show "param_value ext ps (pfx src @ string_of_nat ii) = Some (fitted src ii)"
      if "map_of (rngs ! ii) det = Some xy" "xy \<noteq> []" for xy
      using par \<open>(src, rngs) \<in> set (data c)\<close> \<open>ii < length rngs\<close> that by blast
    show "length (f src det xy) = length xy" if "corr = Some f" for f xy
      using corlen that .
  qed
  define ring_arrays where
    "ring_arrays = (\<lambda>src (ii, rng). appended (map (espec src ii rng) dets))"
  have RR: "residual_rings ext ins ps (pfx src) (zip (map (amap src) rngs) (map (cmap src) rngs))
              = Inr (concat (map (ring_arrays src) (zip [0..<length rngs] rngs)))"
    if "(src, rngs) \<in> set (data c)" for src rngs
  proof -
    have T: "traverse (\<lambda>(ii, rng, corr_rng).
                       case traverse (residual_entry ext ps (pfx src) ii rng corr_rng)
                              (detectors ext ins) of
                         Inl e \<Rightarrow> Inl e
                       | Inr entries \<Rightarrow> Inr (appended entries))
             (map (\<lambda>(i, x). (i, amap src x, cmap src x)) (zip [0..<length rngs] rngs))
          = Inr (map (\<lambda>(i, a, t). ring_arrays src (i, rngs ! i))
                  (map (\<lambda>(i, x). (i, amap src x, cmap src x)) (zip [0..<length rngs] rngs)))"
    proof (rule traverse_Inr)
      fix x assume "x \<in> set (map (\<lambda>(i, x). (i, amap src x, cmap src x)) (zip [0..<length rngs] rngs))"
      then obtain ii where ii: "ii < length rngs"
        and x: "x = (ii, amap src (rngs ! ii), cmap src (rngs ! ii))"
        by (auto simp: set_zip)
      have "traverse (residual_entry ext ps (pfx src) ii (amap src (rngs ! ii)) (cmap src (rngs ! ii)))
              (detectors ext ins) = Inr (map (espec src ii (rngs ! ii)) (detectors ext ins))"
        using entry [OF that ii] by (intro traverse_Inr) simp
      then show "(case x of (ii, rng, corr_rng) \<Rightarrow>
                    case traverse (residual_entry ext ps (pfx src) ii rng corr_rng)
                           (detectors ext ins) of
                      Inl e \<Rightarrow> Inl e
                    | Inr entries \<Rightarrow> Inr (appended entries))
                 = Inr (case x of (i, a, t) \<Rightarrow> ring_arrays src (i, rngs ! i))"
        using x by (simp add: ring_arrays_def dets_def)
    qed
    have M: "map (\<lambda>(i, a, t). ring_arrays src (i, rngs ! i))
                     (map (\<lambda>(i, x). (i, amap src x, cmap src x)) (zip [0..<length rngs] rngs))
                   = map (ring_arrays src) (zip [0..<length rngs] rngs)"
      by (rule nth_equalityI) simp_all
    show ?thesis
      by (simp only: residual_rings_def zip_enumerate_map T M sum.case)
  qed
  \<comment> \<open>all sources\<close>
  define source_arrays where
    "source_arrays = (\<lambda>src rngs. concat (map (ring_arrays src) (zip [0..<length rngs] rngs)))"
  have SRC: "traverse
               (\<lambda>xray_source.
                  case tth_parameter_prefixes ext ins xray_source of
                    None \<Rightarrow> Inl KeyError
                  | Some pfx \<Rightarrow>
                      (case (map_of (map (\<lambda>(src, rngs). (src, map (amap src) rngs)) (data c)) xray_source,
                             map_of (map (\<lambda>(src, rngs). (src, map (cmap src) rngs)) (data c)) xray_source) of
                         (Some a, Some t) \<Rightarrow> residual_rings ext ins ps pfx (zip a t)
                       | _ \<Rightarrow> Inl KeyError))
               (map fst (data c))
             = Inr (map (\<lambda>(src, rngs). source_arrays src rngs) (data c))"
  proof (rule traverse_keys [OF keys])
    fix src rngs assume m: "(src, rngs) \<in> set (data c)"
    have mo: "map_of (data c) src = Some rngs" using keys m by simp
    have p: "tth_parameter_prefixes ext ins src = Some (pfx src)"
      using pre m by force
    show "(case tth_parameter_prefixes ext ins src of
             None \<Rightarrow> Inl KeyError
           | Some pfx \<Rightarrow>
               (case (map_of (map (\<lambda>(src, rngs). (src, map (amap src) rngs)) (data c)) src,
                      map_of (map (\<lambda>(src, rngs). (src, map (cmap src) rngs)) (data c)) src) of
                  (Some a, Some t) \<Rightarrow> residual_rings ext ins ps pfx (zip a t)
                | _ \<Rightarrow> Inl KeyError))
          = Inr (source_arrays src rngs)"
      using p mo RR [OF m] by (simp add: map_of_map_snd source_arrays_def)
  qed
  \<comment> \<open>the arrays that were appended, and their concatenation\<close>
  define arrays where "arrays = concat (map (\<lambda>(src, rngs). source_arrays src rngs) (data c))"
  have nonempty: "[] \<notin> set arrays"
    unfolding arrays_def source_arrays_def ring_arrays_def espec_def Let_def
    using appended_nonempty by (fastforce simp: set_zip)
  have flat: "concat arrays = residual_spec dets (cart_to_angles ext ins) fitted corr (data c)"
  proof -
    have ring: "concat (ring_arrays src x) =
            (case x of (ii, rng) \<Rightarrow>
               concat (map (entry_spec (cart_to_angles ext ins) fitted corr src ii rng) dets))"
      for src x
      by (cases x) (simp add: ring_arrays_def espec_def Let_def appended_concat)
    have source: "concat (source_arrays src rngs) =
            concat (map (\<lambda>(ii, rng).
                      concat (map (entry_spec (cart_to_angles ext ins) fitted corr src ii rng) dets))
                     (zip [0..<length rngs] rngs))" for src rngs
    proof -
      have "concat (source_arrays src rngs)
              = concat (map (\<lambda>x. concat (ring_arrays src x)) (zip [0..<length rngs] rngs))"
        by (simp add: source_arrays_def concat_concat_map comp_def)
      also have "(\<lambda>x. concat (ring_arrays src x)) =
                   (\<lambda>(ii, rng). concat (map (entry_spec (cart_to_angles ext ins) fitted corr src ii rng) dets))"
        using ring by (auto simp: fun_eq_iff)
      finally show ?thesis .
    qed
    have "concat arrays = concat (map (\<lambda>x. concat (case x of (src, rngs) \<Rightarrow> source_arrays src rngs)) (data c))"
      by (simp add: arrays_def concat_concat_map comp_def)
    also have "(\<lambda>x. concat (case x of (src, rngs) \<Rightarrow> source_arrays src rngs)) =
                 (\<lambda>(src, rngs). concat (map (\<lambda>(ii, rng).
                      concat (map (entry_spec (cart_to_angles ext ins) fitted corr src ii rng) dets))
                     (zip [0..<length rngs] rngs)))"
      using source by (auto simp: fun_eq_iff)
    finally show ?thesis by (simp add: residual_spec_def)
  qed
  have "calc_residual ext c ps = (ins, np_hstack arrays)"
    using MA TC SRC unfolding calc_residual_def ins [symmetric] c'_def [symmetric] Let_def arrays_def
    by simp
  moreover have "np_hstack arrays = (if concat arrays = [] then Inl ValueError else Inr (concat arrays))"
    using concat_nonempty_parts [OF nonempty] by (cases arrays) (simp_all add: np_hstack_def)
  ultimately show ?thesis by (simp add: flat dets_def Let_def)
qed


text \<open>
  Claim C2 as stated fails: on a dataset whose only ring has no measured point the
  combinations are skipped, and then \<open>np.hstack\<close> of the empty list raises.
\<close>

theorem calc_residual_empty_dataset_counterexample:
  "calc_residual example_collaborators empty_calibrator (params empty_calibrator)
     = ((), Inl ValueError)"
  by (simp add: calc_residual_def example_collaborators_def empty_calibrator_def
        example_calibrator_def meas_angles_def tth_correction_def residual_rings_def
        residual_entry_def appended_def np_hstack_def)

lemma string_of_nat_digits:
  "string_of_nat 0 = ''0''" "string_of_nat 1 = ''1''" "string_of_nat (Suc 0) = ''1''"
  by code_simp+

text \<open>
  The theorem on two calibrators.  Without a distortion: two points at 31 and 29 degrees
  on the first detector of ring 0, fitted two-theta 30, nothing on the second detector
  and nothing in ring 1.  With a distortion of one and of two degrees on the two
  detectors: the same ring 0, and a ring 1 with one point at 41 degrees on the second
  detector, fitted two-theta 40.
\<close>

theorem calc_residual_concatenates_witness:
  "calc_residual example_collaborators example_calibrator (params example_calibrator)
     = ((), Inr [1, - 1])
   \<and> calc_residual example_collaborators distorted_calibrator (params distorted_calibrator)
     = ((), Inr [0, - 2, - 1])"
proof -
  let ?ext = example_collaborators and ?c = example_calibrator and ?d = distorted_calibrator
  have len: "\<forall>src det xy. length (cart_to_angles ?ext () src det xy) = length xy"
    by (simp add: example_collaborators_def)
  \<comment> \<open>without a distortion\<close>
  have ins: "() = update_instrument_from_params ?ext (instr ?c) (params ?c) (euler_convention ?c)"
    by simp
  have keys: "distinct (map fst (data ?c))" by (simp add: example_calibrator_def)
  have rings: "\<forall>(src, rngs) \<in> set (data ?c). \<forall>rng \<in> set rngs.
                  distinct (map fst rng) \<and> fst ` set rng \<subseteq> set (detectors ?ext ())"
    by (simp add: example_calibrator_def example_collaborators_def)
  have pre: "\<forall>src \<in> fst ` set (data ?c).
               tth_parameter_prefixes ?ext () src = Some ((\<lambda>s. ''XRS1_DS_ring_'') src)"
    by (simp add: example_calibrator_def example_collaborators_def)
  have par: "\<forall>(src, rngs) \<in> set (data ?c). \<forall>ii < length rngs. \<forall>det xy.
                map_of (rngs ! ii) det = Some xy \<and> xy \<noteq> [] \<longrightarrow>
                param_value ?ext (params ?c) ((\<lambda>s. ''XRS1_DS_ring_'') src @ string_of_nat ii)
                  = Some ((\<lambda>s i. 30) src ii)"
    by (auto simp: example_calibrator_def example_collaborators_def less_Suc_eq
          string_of_nat_digits simp del: string_of_nat.simps)
  have cor: "(tth_distortion ?c = None \<and> (None :: (string \<Rightarrow> string \<Rightarrow> xy_array \<Rightarrow> real list) option) = None)
              \<or> (\<exists>td sd. tth_distortion ?c = Some td
                    \<and> None = Some (\<lambda>src det xy. sd det () src xy)
                    \<and> (\<forall>det \<in> set (detectors ?ext ()). td det = Some (sd det))
                    \<and> (\<forall>src det xy. length (sd det () src xy) = length xy))"
    by (simp add: example_calibrator_def)
  have spec: "residual_spec (detectors ?ext ()) (cart_to_angles ?ext ()) (\<lambda>s i. 30) None (data ?c)
                = [1, - 1]"
    by (simp add: residual_spec_def entry_spec_def example_calibrator_def example_collaborators_def
          np_degrees_def upt_rec [of 0] upt_rec [of 1])
  from calc_residual_concatenates [OF ins keys rings len pre par cor] spec
  have plain: "calc_residual ?ext ?c (params ?c) = ((), Inr [1, - 1])" by simp
  \<comment> \<open>with a distortion\<close>
  let ?sd = "\<lambda>det (ins :: unit) (xray_source :: string) (xy :: xy_array).
               map (\<lambda>p. (if det = ''IMAGE-PLATE-2'' then 1 else 2) * pi / 180) xy"
  let ?fit = "\<lambda>(s :: string) (i :: nat). if i = 0 then 30 else (40 :: real)"
  have ins': "() = update_instrument_from_params ?ext (instr ?d) (params ?d) (euler_convention ?d)"
    by simp
  have keys': "distinct (map fst (data ?d))" by (simp add: distorted_calibrator_def)
  have rings': "\<forall>(src, rngs) \<in> set (data ?d). \<forall>rng \<in> set rngs.
                  distinct (map fst rng) \<and> fst ` set rng \<subseteq> set (detectors ?ext ())"
    by (simp add: distorted_calibrator_def example_collaborators_def)
  have pre': "\<forall>src \<in> fst ` set (data ?d).
               tth_parameter_prefixes ?ext () src = Some ((\<lambda>s. ''XRS1_DS_ring_'') src)"
    by (simp add: distorted_calibrator_def example_collaborators_def)
  have par': "\<forall>(src, rngs) \<in> set (data ?d). \<forall>ii < length rngs. \<forall>det xy.
                map_of (rngs ! ii) det = Some xy \<and> xy \<noteq> [] \<longrightarrow>
                param_value ?ext (params ?d) ((\<lambda>s. ''XRS1_DS_ring_'') src @ string_of_nat ii)
                  = Some (?fit src ii)"
    by (auto simp: distorted_calibrator_def example_collaborators_def less_Suc_eq
          string_of_nat_digits simp del: string_of_nat.simps)
  have td: "tth_distortion ?d
              = Some [''IMAGE-PLATE-2'' \<mapsto> ?sd ''IMAGE-PLATE-2'',
                      ''IMAGE-PLATE-4'' \<mapsto> ?sd ''IMAGE-PLATE-4'']"
    by (simp add: distorted_calibrator_def)
  have cover: "\<forall>det \<in> set (detectors ?ext ()).
                 [''IMAGE-PLATE-2'' \<mapsto> ?sd ''IMAGE-PLATE-2'',
                  ''IMAGE-PLATE-4'' \<mapsto> ?sd ''IMAGE-PLATE-4''] det = Some (?sd det)"
    by (simp add: example_collaborators_def)
  have lens: "\<forall>src det xy. length (?sd det () src xy) = length xy" by simp
  have cor': "(tth_distortion ?d = None \<and> Some (\<lambda>src det xy. ?sd det () src xy) = None)
              \<or> (\<exists>td sd. tth_distortion ?d = Some td
                    \<and> Some (\<lambda>src det xy. ?sd det () src xy) = Some (\<lambda>src det xy. sd det () src xy)
                    \<and> (\<forall>det \<in> set (detectors ?ext ()). td det = Some (sd det))
                    \<and> (\<forall>src det xy. length (sd det () src xy) = length xy))"
  proof (rule disjI2, intro exI conjI)
    show "tth_distortion ?d
            = Some [''IMAGE-PLATE-2'' \<mapsto> ?sd ''IMAGE-PLATE-2'',
                    ''IMAGE-PLATE-4'' \<mapsto> ?sd ''IMAGE-PLATE-4'']"
      by (rule td)
    show "Some (\<lambda>src det xy. ?sd det () src xy) = Some (\<lambda>src det xy. ?sd det () src xy)"
      by (rule refl)
    show "\<forall>det \<in> set (detectors ?ext ()).
            [''IMAGE-PLATE-2'' \<mapsto> ?sd ''IMAGE-PLATE-2'',
             ''IMAGE-PLATE-4'' \<mapsto> ?sd ''IMAGE-PLATE-4''] det = Some (?sd det)"
      by (rule cover)
    show "\<forall>src det xy. length (?sd det () src xy) = length xy" by (rule lens)
  qed
  have spec': "residual_spec (detectors ?ext ()) (cart_to_angles ?ext ()) ?fit
                 (Some (\<lambda>src det xy. ?sd det () src xy)) (data ?d)
                = [0, - 2, - 1]"
    by (simp add: residual_spec_def entry_spec_def distorted_calibrator_def example_collaborators_def
          np_degrees_def upt_rec [of 0] upt_rec [of 1] upt_rec [of 2])
  from calc_residual_concatenates [OF ins' keys' rings' len pre' par' cor'] spec'
  have distorted: "calc_residual ?ext ?d (params ?d) = ((), Inr [0, - 2, - 1])" by simp
  from plain distorted show ?thesis by blast
qed


text \<open>The parameter collection the example collaborators build.\<close>

lemma make_lmfit_params_example:
  "make_lmfit_params example_collaborators (example_calibrator\<lparr>engineering_constraints := v\<rparr>)
     = Inr (if v = Some ''TARDIS''
            then [(''beam_energy'', 10), (''XRS1_DS_ring_0'', 30),
                  (''tardis_distance_between_plates'', 23)]
            else [(''beam_energy'', 10), (''XRS1_DS_ring_0'', 30)])"
  by (simp add: make_lmfit_params_def meas_angles_def example_collaborators_def
        example_calibrator_def)


text \<open>
  Claim C3 (amended).  Assigning the constraint tag a value that differs from the tag the
  calibrator holds and is none of absent, the string \<open>None\<close> and \<open>TARDIS\<close> (for example
  \<open>tardis\<close> or \<open>foo\<close>) always fails and leaves the calibrator as it was.  Assigning absent,
  the string \<open>None\<close> or \<open>TARDIS\<close> is accepted: it returns at once when that is the tag
  held, and rebuilds the parameter collection otherwise; it succeeds, and the calibrator
  holds the new tag, whenever that rebuild succeeds.
\<close>

theorem engineering_constraints_validation:
  "(v \<noteq> engineering_constraints c \<and> v \<notin> {None, Some ''None'', Some ''TARDIS''}
      \<longrightarrow> (\<exists>e. set_engineering_constraints ext v c = (c, Some e)))
   \<and> (v \<in> {None, Some ''None'', Some ''TARDIS''}
      \<longrightarrow> set_engineering_constraints ext v c =
            (if v = engineering_constraints c then (c, None)
             else rebuild ext (c\<lparr>engineering_constraints := v\<rparr>)))
   \<and> (v \<in> {None, Some ''None'', Some ''TARDIS''}
        \<and> make_lmfit_params ext (c\<lparr>engineering_constraints := v\<rparr>) = Inr p
      \<longrightarrow> snd (set_engineering_constraints ext v c) = None
          \<and> engineering_constraints (fst (set_engineering_constraints ext v c)) = v)"
proof (intro conjI impI)
  assume a: "v \<noteq> engineering_constraints c \<and> v \<notin> {None, Some ''None'', Some ''TARDIS''}"
  then have "set_engineering_constraints ext v c = (c, Some TypeError)"
    by (simp add: set_engineering_constraints_def)
  then show "\<exists>e. set_engineering_constraints ext v c = (c, Some e)" by blast
next
  assume a: "v \<in> {None, Some ''None'', Some ''TARDIS''}"
  then have "v \<in> set [None, Some ''None'', Some ''TARDIS'']" by simp
  then show "set_engineering_constraints ext v c =
               (if v = engineering_constraints c then (c, None)
                else rebuild ext (c\<lparr>engineering_constraints := v\<rparr>))"
    by (simp add: set_engineering_constraints_def)
next
  assume a: "v \<in> {None, Some ''None'', Some ''TARDIS''}
               \<and> make_lmfit_params ext (c\<lparr>engineering_constraints := v\<rparr>) = Inr p"
  then have valid: "v \<in> set [None, Some ''None'', Some ''TARDIS'']" by simp
  have both: "snd (set_engineering_constraints ext v c) = None
          \<and> engineering_constraints (fst (set_engineering_constraints ext v c)) = v"
  proof (cases "v = engineering_constraints c")
    case True
    then show ?thesis by (simp add: set_engineering_constraints_def)
  next
    case False
    with valid have "set_engineering_constraints ext v c
                       = rebuild ext (c\<lparr>engineering_constraints := v\<rparr>)"
      by (simp add: set_engineering_constraints_def)
    with a show ?thesis by (simp add: rebuild_def)
  qed
  from both show "snd (set_engineering_constraints ext v c) = None" by simp
  from both show "engineering_constraints (fst (set_engineering_constraints ext v c)) = v"
    by simp
qed

text \<open>
  Claim C3 as stated fails: the string \<open>None\<close> is a value other than absent and \<open>TARDIS\<close>,
  and assigning it succeeds.
\<close>

theorem engineering_constraints_none_string_counterexample:
  "Some ''None'' \<noteq> (None :: string option) \<and> Some ''None'' \<noteq> Some ''TARDIS''
   \<and> set_engineering_constraints example_collaborators (Some ''None'') example_calibrator
       = (example_calibrator\<lparr>engineering_constraints := Some ''None''\<rparr>, None)"
proof -
  have "params example_calibrator = [(''beam_energy'', 10), (''XRS1_DS_ring_0'', 30)]"
    by (simp add: example_calibrator_def)
  then have "example_calibrator\<lparr>engineering_constraints := Some ''None'',
                params := [(''beam_energy'', 10), (''XRS1_DS_ring_0'', 30)]\<rparr>
             = example_calibrator\<lparr>engineering_constraints := Some ''None''\<rparr>"
    by (simp add: example_calibrator_def)
  moreover have "engineering_constraints example_calibrator = None"
    by (simp add: example_calibrator_def)
  ultimately show ?thesis
    using make_lmfit_params_example [of "Some ''None''"]
    by (simp add: set_engineering_constraints_def rebuild_def)
qed

text \<open>The theorem on the example calibrator: \<open>foo\<close> fails, \<open>TARDIS\<close> succeeds.\<close>

theorem engineering_constraints_validation_witness:
  "(\<exists>e. set_engineering_constraints example_collaborators (Some ''foo'') example_calibrator
          = (example_calibrator, Some e))
   \<and> snd (set_engineering_constraints example_collaborators (Some ''TARDIS'') example_calibrator)
       = None
   \<and> engineering_constraints
        (fst (set_engineering_constraints example_collaborators (Some ''TARDIS'') example_calibrator))
       = Some ''TARDIS''"
proof -
  have ec: "engineering_constraints example_calibrator = None"
    by (simp add: example_calibrator_def)
  have foo: "Some ''foo'' \<noteq> engineering_constraints example_calibrator
               \<and> Some ''foo'' \<notin> {None, Some ''None'', Some ''TARDIS''}"
    using ec by simp
  have tardis: "Some ''TARDIS'' \<in> {None, Some ''None'', Some ''TARDIS''}
      \<and> make_lmfit_params example_collaborators
           (example_calibrator\<lparr>engineering_constraints := Some ''TARDIS''\<rparr>)
          = Inr [(''beam_energy'', 10), (''XRS1_DS_ring_0'', 30),
                 (''tardis_distance_between_plates'', 23)]"
    using make_lmfit_params_example [of "Some ''TARDIS''"] by simp
  from engineering_constraints_validation
         [of "Some ''foo''" example_calibrator example_collaborators] foo
  have 1: "\<exists>e. set_engineering_constraints example_collaborators (Some ''foo'') example_calibrator
          = (example_calibrator, Some e)" by blast
  from engineering_constraints_validation
         [of "Some ''TARDIS''" example_calibrator example_collaborators] tardis
  have 2: "snd (set_engineering_constraints example_collaborators (Some ''TARDIS'') example_calibrator)
       = None
   \<and> engineering_constraints
        (fst (set_engineering_constraints example_collaborators (Some ''TARDIS'') example_calibrator))
       = Some ''TARDIS''" by blast
  from 1 2 show ?thesis by blast
qed





section \<open>Properties of the material configuration\<close>

text \<open>The path that \<open>definitions\<close> resolves: the configured path when it is absolute, the
  configured path joined to the working directory otherwise.\<close>

lemma definitions_resolves:
  "definitions path_exists cfg =
     (let p = (if isabs (material_definitions cfg) then material_definitions cfg
               else path_join (working_dir cfg) (material_definitions cfg))
      in if path_exists p then Inr p else Inl (IOError definitions_message))"
  by (simp add: definitions_def Let_def)

lemma path_join_relative:
  "\<not> isabs b \<Longrightarrow> a \<noteq> [] \<Longrightarrow> last a \<noteq> CHR ''/'' \<Longrightarrow> path_join a b = a @ ''/'' @ b"
  by (simp add: path_join_def)

text \<open>
  Claim C5 (fails on the code).  With the relative path \<open>materials.h5\<close> and the working
  directory \<open>/data\<close>, the accessor resolves \<open>/data/materials.h5\<close> and returns it when it
  exists; when it does not exist the accessor raises, and the message of the exception
  is the format string with \<open>%s\<close> in it: neither the configured path nor the resolved
  path occurs in it.
\<close>

theorem definitions_message_drops_path:
  "definitions (\<lambda>p. False) \<lparr>material_definitions = ''materials.h5'', working_dir = ''/data''\<rparr>
     = Inl (IOError definitions_message)
   \<and> \<not> sublist ''materials.h5'' definitions_message
   \<and> definitions (\<lambda>p. p = ''/data/materials.h5'')
        \<lparr>material_definitions = ''materials.h5'', working_dir = ''/data''\<rparr>
     = Inr ''/data/materials.h5''"
proof -
  have "\<not> sublist ''materials.h5'' definitions_message" by code_simp
  then show ?thesis by (simp add: definitions_def isabs_def path_join_def)
qed

section \<open>Properties of the cylindrical detector\<close>

lemma norm3_eq_0_iff: "norm3 v = 0 \<longleftrightarrow> v = (0, 0, 0)"
proof (cases v)
  case (fields x y z)
  have "x * x + y * y + z * z = 0 \<longleftrightarrow> x = 0 \<and> y = 0 \<and> z = 0"
    by (metis add_nonneg_eq_0_iff mult_eq_0_iff zero_le_square add_nonneg_nonneg)
  then show ?thesis using fields by (simp add: norm3_def)
qed

text \<open>
  Claim C7 (amended).  For every cylindrical detector the radius is the Euclidean norm of
  the translation vector, the physical size is (rows \<open>\<cdot>\<close> row pitch, columns \<open>\<cdot>\<close> column
  pitch), and the angular extent is the second component of the physical size, columns
  \<open>\<cdot>\<close> column pitch, divided by the radius and by 2 (not finite when the translation
  vector is zero).
\<close>

theorem cylindrical_derived_geometry:
  "radius d = (case tvec d of (x, y, z) \<Rightarrow> sqrt (x * x + y * y + z * z))
   \<and> physical_size d
       = (real_of_int (rows d) * pixel_size_row d, real_of_int (cols d) * pixel_size_col d)
   \<and> angle_extent d
       = (if tvec d = (0, 0, 0) then None
          else Some (real_of_int (cols d) * pixel_size_col d / radius d / 2))"
proof (intro conjI)
  show "radius d = (case tvec d of (x, y, z) \<Rightarrow> sqrt (x * x + y * y + z * z))"
    by (simp add: radius_def norm3_def)
  show "physical_size d
       = (real_of_int (rows d) * pixel_size_row d, real_of_int (cols d) * pixel_size_col d)"
    by (simp add: physical_size_def)
  show "angle_extent d
       = (if tvec d = (0, 0, 0) then None
          else Some (real_of_int (cols d) * pixel_size_col d / radius d / 2))"
    by (simp add: radius_def physical_size_def angle_extent_def np_divide_def norm3_eq_0_iff
          Let_def)
qed

text \<open>
  Claim C7 as stated fails: the height of the physical size is its first component, rows
  \<open>\<cdot>\<close> row pitch.  On a detector of 2 rows and 4 columns of unit pixels at radius 1 the
  angular extent is 2, and the height divided by the radius and by 2 is 1.
\<close>

theorem angle_extent_height_counterexample:
  "angle_extent example_detector = Some 2
   \<and> fst (physical_size example_detector) / radius example_detector / 2 = 1"
  by (simp add: angle_extent_def physical_size_def radius_def norm3_def np_divide_def
        example_detector_def)

section \<open>Properties of the orientation colouring\<close>

lemma sqrt_epsf_pos: "0 < sqrt_epsf"
  by (simp add: sqrt_epsf_def epsf_def)

lemma sqrt_epsf_lt_1: "sqrt_epsf < 1"
proof -
  have "epsf < 1" by (simp add: epsf_def)
  then have "sqrt epsf < sqrt 1" by (simp only: real_sqrt_less_iff)
  then show ?thesis by (simp add: sqrt_epsf_def)
qed

lemma norm3_nonneg: "0 \<le> norm3 v"
  by (cases v) (simp add: norm3_def)

lemma norm3_div3:
  assumes "0 < n"
  shows "norm3 (div3 v n) = norm3 v / n"
proof (cases v)
  case (fields x y z)
  have "x / n * (x / n) + y / n * (y / n) + z / n * (z / n) = (x * x + y * y + z * z) / (n * n)"
    by (simp add: add_divide_distrib)
  then have "norm3 (div3 v n) = sqrt ((x * x + y * y + z * z) / (n * n))"
    using fields by (simp add: norm3_def div3_def)
  also have "\<dots> = sqrt (x * x + y * y + z * z) / n"
    using assms by (simp add: real_sqrt_divide)
  finally show ?thesis using fields by (simp add: norm3_def)
qed

lemma norm3_unit:
  assumes "norm3 v \<noteq> 0"
  shows "norm3 (div3 v (norm3 v)) = 1"
proof -
  have "0 < norm3 v" using assms norm3_nonneg [of v] by simp
  then show ?thesis by (simp add: norm3_div3)
qed

lemma div3_one: "div3 v 1 = v"
  by (cases v) (simp add: div3_def)

lemma normalize_row_norm:
  assumes "norm3 v > sqrt_epsf"
  shows "norm3 (normalize_row v) = 1"
proof -
  have "norm3 v \<noteq> 0" using assms sqrt_epsf_pos by simp
  then show ?thesis using assms by (simp add: normalize_row_def Let_def norm3_unit)
qed

lemma normalize_row_unit:
  assumes "norm3 v = 1"
  shows "normalize_row v = v"
  using assms sqrt_epsf_lt_1 by (simp add: normalize_row_def Let_def div3_one)

lemma normalize_row_idem: "normalize_row (normalize_row v) = normalize_row v"
proof (cases "norm3 v > sqrt_epsf")
  case True
  then show ?thesis by (intro normalize_row_unit normalize_row_norm)
next
  case False
  then show ?thesis by (simp add: normalize_row_def Let_def)
qed

lemma check_norm_rows_idem: "check_norm_rows (check_norm_rows vs) = check_norm_rows vs"
  by (simp add: check_norm_rows_def normalize_row_idem)

lemma check_norm_rows_nth:
  assumes "i < length vs"
  shows "check_norm_rows vs ! i =
           (if norm3 (vs ! i) > sqrt_epsf then div3 (vs ! i) (norm3 (vs ! i)) else vs ! i)"
  using assms by (simp add: check_norm_rows_def normalize_row_def Let_def)

lemma rows_of_vec3s: "map (\<lambda>r. (r ! 0, r ! 1, r ! 2)) (map row_of_vec3 ws) = ws"
  by (induction ws) (auto simp: row_of_vec3_def)

lemma vec3s_of_rows: "vec3s_of_array (map row_of_vec3 ws) = Some ws"
proof -
  have "list_all (\<lambda>r. length r = 3) (map row_of_vec3 ws)"
    by (induction ws) (auto simp: row_of_vec3_def)
  then show ?thesis using rows_of_vec3s [of ws] by (simp add: vec3s_of_array_def)
qed


text \<open>\<open>check_norm\<close> on an array of doubles of three columns, and once more on its result.\<close>

lemma check_norm_float:
  assumes "st dir3 = Float64 m" and "vec3s_of_array m = Some vs"
  shows "check_norm st dir3 = Inr (st(dir3 := Float64 (map row_of_vec3 (check_norm_rows vs))))"
  using assms by (simp add: check_norm_def array_values_def array_assign_def)

lemma check_norm_float_again:
  "check_norm (st(dir3 := Float64 (map row_of_vec3 (check_norm_rows vs)))) dir3
     = Inr (st(dir3 := Float64 (map row_of_vec3 (check_norm_rows vs))))"
  by (simp add: check_norm_def array_values_def array_assign_def vec3s_of_rows
        check_norm_rows_idem)

text \<open>The store after each operation is the store that \<open>check_norm\<close> leaves; \<open>get_color\<close> runs
  \<open>check_norm\<close> twice, through \<open>calc_hue\<close> and through \<open>calc_lightness\<close>.\<close>

lemma calc_azi_rho_fst:
  assumes "check_norm st dir3 = Inr st1"
  shows "fst (calc_azi_rho s st dir3 laueswitch) = st1"
  using assms by (simp add: calc_azi_rho_def Let_def split: option.splits)

lemma calc_pol_theta_fst:
  assumes "check_norm st dir3 = Inr st1"
  shows "fst (calc_pol_theta s st dir3 laueswitch) = st1"
  using assms by (simp add: calc_pol_theta_def Let_def)

lemma calc_hue_fst:
  assumes "check_norm st dir3 = Inr st1"
  shows "fst (calc_hue s st dir3 laueswitch) = st1"
  using calc_azi_rho_fst [of st dir3 st1 s laueswitch, OF assms]
  by (auto simp: calc_hue_def split: prod.splits sum.splits)

lemma calc_lightness_fst:
  assumes "check_norm st dir3 = Inr st1"
  shows "fst (calc_lightness s st dir3 laueswitch) = st1"
  using calc_pol_theta_fst [of st dir3 st1 s laueswitch, OF assms]
  by (auto simp: calc_lightness_def split: prod.splits sum.splits)

lemma get_color_fst:
  assumes first: "check_norm st dir3 = Inr st1" and second: "check_norm st1 dir3 = Inr st1"
  shows "fst (get_color s st dir3 laueswitch) = st1"
proof -
  have h: "fst (calc_hue s st dir3 laueswitch) = st1"
    by (rule calc_hue_fst [of st dir3 st1, OF first])
  have l: "fst (calc_lightness s st1 dir3 laueswitch) = st1"
    by (rule calc_lightness_fst [of st1 dir3 st1, OF second])
  show ?thesis
  proof (cases "calc_hue s st dir3 laueswitch")
    case (Pair st' r)
    with h have st': "st' = st1" by simp
    show ?thesis
    proof (cases r)
      case (Inl e)
      with Pair st' show ?thesis by (simp add: get_color_def)
    next
      case (Inr H)
      with Pair st' l show ?thesis
        by (cases "calc_lightness s st1 dir3 laueswitch")
           (auto simp: get_color_def Let_def split: sum.splits)
    qed
  qed
qed

text \<open>
  Claim C10 (amended).  Called with an \<open>N\<times>3\<close> array of doubles, a whole array of the store,
  each of \<open>get_color\<close>, \<open>calc_hue\<close>, \<open>calc_lightness\<close>, \<open>calc_azi_rho\<close> and \<open>calc_pol_theta\<close> leaves
  a store in which that array has every row whose norm exceeds \<open>\<surd>(machine epsilon)\<close>
  replaced by the row divided by its norm, a row of norm 1 up to rounding, and every
  other row as it was, and in which every other array, which shares no memory with the
  array passed in, is as it was: the arrays of the sector are not modified unless the
  array passed in is one of them.  (The sector record itself is an argument that no
  operation returns.)
\<close>

theorem coloring_normalizes_in_place:
  assumes float: "st dir3 = Float64 m" and width: "vec3s_of_array m = Some vs"
  shows "fst (get_color s st dir3 laueswitch)
           = st(dir3 := Float64 (map row_of_vec3 (check_norm_rows vs)))
       \<and> fst (calc_hue s st dir3 laueswitch)
           = st(dir3 := Float64 (map row_of_vec3 (check_norm_rows vs)))
       \<and> fst (calc_lightness s st dir3 laueswitch)
           = st(dir3 := Float64 (map row_of_vec3 (check_norm_rows vs)))
       \<and> fst (calc_azi_rho s st dir3 laueswitch)
           = st(dir3 := Float64 (map row_of_vec3 (check_norm_rows vs)))
       \<and> fst (calc_pol_theta s st dir3 laueswitch)
           = st(dir3 := Float64 (map row_of_vec3 (check_norm_rows vs)))
       \<and> length (check_norm_rows vs) = length vs
       \<and> (\<forall>i < length vs.
             (sqrt_epsf < norm3 (vs ! i) \<longrightarrow>
                check_norm_rows vs ! i = div3 (vs ! i) (norm3 (vs ! i))
                \<and> norm3 (check_norm_rows vs ! i) = 1)
           \<and> (norm3 (vs ! i) \<le> sqrt_epsf \<longrightarrow> check_norm_rows vs ! i = vs ! i))
       \<and> (\<forall>a. a \<noteq> dir3 \<longrightarrow>
             fst (get_color s st dir3 laueswitch) a = st a
           \<and> fst (calc_hue s st dir3 laueswitch) a = st a
           \<and> fst (calc_lightness s st dir3 laueswitch) a = st a
           \<and> fst (calc_azi_rho s st dir3 laueswitch) a = st a
           \<and> fst (calc_pol_theta s st dir3 laueswitch) a = st a)"
proof -
  let ?st1 = "st(dir3 := Float64 (map row_of_vec3 (check_norm_rows vs)))"
  have first: "check_norm st dir3 = Inr ?st1"
    by (rule check_norm_float [of st dir3 m vs, OF float width])
  have second: "check_norm ?st1 dir3 = Inr ?st1" by (rule check_norm_float_again)
  note stores = get_color_fst [of st dir3 ?st1 s laueswitch, OF first second]
    calc_hue_fst [of st dir3 ?st1 s laueswitch, OF first]
    calc_lightness_fst [of st dir3 ?st1 s laueswitch, OF first]
    calc_azi_rho_fst [of st dir3 ?st1 s laueswitch, OF first]
    calc_pol_theta_fst [of st dir3 ?st1 s laueswitch, OF first]
  have rows: "(sqrt_epsf < norm3 (vs ! i) \<longrightarrow>
                check_norm_rows vs ! i = div3 (vs ! i) (norm3 (vs ! i))
                \<and> norm3 (check_norm_rows vs ! i) = 1)
           \<and> (norm3 (vs ! i) \<le> sqrt_epsf \<longrightarrow> check_norm_rows vs ! i = vs ! i)"
    if "i < length vs" for i
  proof -
    have "norm3 (div3 (vs ! i) (norm3 (vs ! i))) = 1" if "sqrt_epsf < norm3 (vs ! i)"
      using that sqrt_epsf_pos by (intro norm3_unit) simp
    then show ?thesis using check_norm_rows_nth [OF \<open>i < length vs\<close>] by auto
  qed
  have len: "length (check_norm_rows vs) = length vs" by (simp add: check_norm_rows_def)
  have rows_all: "\<forall>i < length vs.
             (sqrt_epsf < norm3 (vs ! i) \<longrightarrow>
                check_norm_rows vs ! i = div3 (vs ! i) (norm3 (vs ! i))
                \<and> norm3 (check_norm_rows vs ! i) = 1)
           \<and> (norm3 (vs ! i) \<le> sqrt_epsf \<longrightarrow> check_norm_rows vs ! i = vs ! i)"
    using rows by blast
  have frame: "\<forall>a. a \<noteq> dir3 \<longrightarrow>
             fst (get_color s st dir3 laueswitch) a = st a
           \<and> fst (calc_hue s st dir3 laueswitch) a = st a
           \<and> fst (calc_lightness s st dir3 laueswitch) a = st a
           \<and> fst (calc_azi_rho s st dir3 laueswitch) a = st a
           \<and> fst (calc_pol_theta s st dir3 laueswitch) a = st a"
    unfolding stores by simp
  show ?thesis by (intro conjI stores len rows_all frame)
qed

text \<open>The constructor on the entries of the example table.\<close>

lemma sector_init_c4v:
  "sector_init pg2vertex_arrays pg2vertex_c4v pg2vertex_d4h = Inr sector_c4v"
proof -
  have "mean_c4v \<noteq> (0, 0, 0)" by (simp add: mean_c4v_def)
  then have n: "norm3 mean_c4v \<noteq> 0" by (simp add: norm3_eq_0_iff)
  have m: "unit_mean [[0, 1, 1 / sqrt 2], [0, 0, 1 / sqrt 2], [1, 0, 0]]
             = Some (div3 mean_c4v (norm3 mean_c4v))"
    using n by (simp add: unit_mean_def mean_c4v_def Let_def)
  show ?thesis
    by (simp add: sector_init_def pg2vertex_c4v_def pg2vertex_d4h_def pg2vertex_arrays_def m
          sector_c4v_def array_values_def)
qed

lemma sector_init_c1:
  "sector_init pg2vertex_arrays pg2vertex_c1 pg2vertex_ci = Inr sector_c1"
  by (simp add: sector_init_def pg2vertex_c1_def pg2vertex_ci_def sector_c1_def)

lemma norm3_3_0_4: "norm3 (3, 0, 4) = 5"
proof -
  have "norm3 (3, 0, 4) = sqrt 25" by (simp add: norm3_def)
  also have "sqrt 25 = sqrt (5 ^ 2)" by simp
  also have "\<dots> = 5" by (simp del: power_numeral)
  finally show ?thesis .
qed

text \<open>
  Claim C10 as stated fails when the caller's array is an array of the sector:
  \<open>s.get_color(s.vertices, False)\<close> on the sector of \<open>c4v\<close>, whose vertex array is \<open>3\<times>3\<close>,
  normalizes the rows of the stored vertex array; the entry in row 0, column 1 goes from
  \<open>1\<close> to \<open>1/\<surd>(3/2)\<close>.
\<close>

theorem own_vertices_as_input_counterexample:
  "sector_init pg2vertex_arrays pg2vertex_c4v pg2vertex_d4h = Inr sector_c4v
   \<and> vertices sector_c4v = 12
   \<and> array_values (pg2vertex_arrays 12) ! 0 ! 1 = 1
   \<and> array_values (fst (get_color sector_c4v pg2vertex_arrays 12 False) 12) ! 0 ! 1
       = 1 / sqrt (3 / 2)
   \<and> 1 / sqrt (3 / 2) \<noteq> (1 :: real)"
proof -
  let ?m = "[[0, 1, 1 / sqrt 2], [0, 0, 1 / sqrt 2], [1, 0, 0]] :: real list list"
  let ?vs = "[(0, 1, 1 / sqrt 2), (0, 0, 1 / sqrt 2), (1, 0, 0)] :: vec3 list"
  let ?st1 = "pg2vertex_arrays(12 := Float64 (map row_of_vec3 (check_norm_rows ?vs)))"
  have f: "pg2vertex_arrays 12 = Float64 ?m" by (simp add: pg2vertex_arrays_def)
  have w: "vec3s_of_array ?m = Some ?vs" by (simp add: vec3s_of_array_def)
  have first: "check_norm pg2vertex_arrays 12 = Inr ?st1"
    by (rule check_norm_float [of pg2vertex_arrays 12 ?m ?vs, OF f w])
  have second: "check_norm ?st1 12 = Inr ?st1" by (rule check_norm_float_again)
  have store: "fst (get_color sector_c4v pg2vertex_arrays 12 False) = ?st1"
    by (rule get_color_fst [of pg2vertex_arrays 12 ?st1, OF first second])
  have n: "norm3 (0, 1, 1 / sqrt 2) = sqrt (3 / 2)"
    by (simp add: norm3_def)
  have g: "1 < sqrt (3 / 2 :: real)" by simp
  have big: "sqrt_epsf < sqrt (3 / 2)" using sqrt_epsf_lt_1 g by (rule less_trans)
  have "check_norm_rows ?vs ! 0 = div3 (0, 1, 1 / sqrt 2) (sqrt (3 / 2))"
    using big n by (simp add: check_norm_rows_def normalize_row_def Let_def)
  then have "map row_of_vec3 (check_norm_rows ?vs) ! 0 ! 1 = 1 / sqrt (3 / 2)"
    by (simp add: check_norm_rows_def row_of_vec3_def div3_def)
  then have shared: "array_values (fst (get_color sector_c4v pg2vertex_arrays 12 False) 12) ! 0 ! 1
                       = 1 / sqrt (3 / 2)"
    by (simp add: store array_values_def)
  have ne: "1 / sqrt (3 / 2) \<noteq> (1 :: real)" using g by simp
  have old: "array_values (pg2vertex_arrays 12) ! 0 ! 1 = 1"
    by (simp add: pg2vertex_arrays_def array_values_def)
  have v: "vertices sector_c4v = 12" by (simp add: sector_c4v_def)
  from sector_init_c4v v old shared ne show ?thesis by blast
qed

text \<open>
  An array of integers does not take the normalized rows: the quotients are cut to their
  integer parts when they are written.  The batch \<open>[[3, 0, 4]]\<close> of integers, of norm 5,
  is left as \<open>[[0, 0, 0]]\<close>, not as a row of norm 1.
\<close>

lemma integer_batch_is_cut:
  "with_int_batch [[3, 0, 4]] 100 = Int64 [[3, 0, 4]]
   \<and> fst (get_color sector_c4v (with_int_batch [[3, 0, 4]]) 100 False) 100 = Int64 [[0, 0, 0]]
   \<and> fst (calc_azi_rho sector_c4v (with_int_batch [[3, 0, 4]]) 100 False) 100
       = Int64 [[0, 0, 0]]
   \<and> fst (calc_pol_theta sector_c4v (with_int_batch [[3, 0, 4]]) 100 False) 100
       = Int64 [[0, 0, 0]]"
proof -
  let ?si = "with_int_batch [[3, 0, 4]]"
  let ?si1 = "?si(100 := Int64 [[0, 0, 0]])"
  have i0: "?si 100 = Int64 [[3, 0, 4]]" by (simp add: with_int_batch_def)
  have r: "check_norm_rows [(3, 0, 4)] = [(3 / 5, 0, 4 / 5)]"
    using norm3_3_0_4 sqrt_epsf_lt_1
    by (simp add: check_norm_rows_def normalize_row_def div3_def)
  have ifirst: "check_norm ?si 100 = Inr ?si1"
    using i0 r
    by (simp add: check_norm_def array_values_def array_assign_def vec3s_of_array_def
          row_of_vec3_def c_cast_def)
  have z: "norm3 (0, 0, 0) = 0" by (simp add: norm3_def)
  have rz: "check_norm_rows [(0, 0, 0)] = [(0, 0, 0)]"
    using z sqrt_epsf_pos by (simp add: check_norm_rows_def normalize_row_def)
  have isecond: "check_norm ?si1 100 = Inr ?si1"
    using rz
    by (simp add: check_norm_def array_values_def array_assign_def vec3s_of_array_def
          row_of_vec3_def c_cast_def)
  have "fst (get_color sector_c4v ?si 100 False) = ?si1"
    by (rule get_color_fst [of ?si 100 ?si1, OF ifirst isecond])
  then have color: "fst (get_color sector_c4v ?si 100 False) 100 = Int64 [[0, 0, 0]]" by simp
  have "fst (calc_azi_rho sector_c4v ?si 100 False) = ?si1"
    by (rule calc_azi_rho_fst [of ?si 100 ?si1, OF ifirst])
  then have rho: "fst (calc_azi_rho sector_c4v ?si 100 False) 100 = Int64 [[0, 0, 0]]" by simp
  have "fst (calc_pol_theta sector_c4v ?si 100 False) = ?si1"
    by (rule calc_pol_theta_fst [of ?si 100 ?si1, OF ifirst])
  then have theta: "fst (calc_pol_theta sector_c4v ?si 100 False) 100 = Int64 [[0, 0, 0]]"
    by simp
  from i0 color rho theta show ?thesis by blast
qed

text \<open>The theorem on the batch of the one direction \<open>(3, 0, 4)\<close> in doubles, an array of its
  own: the row becomes \<open>(3/5, 0, 4/5)\<close> and the vertex array of the sector stays.\<close>

theorem coloring_normalizes_in_place_witness:
  "with_batch (3, 0, 4) 100 = Float64 [[3, 0, 4]]
   \<and> vec3s_of_array [[3, 0, 4]] = Some [(3, 0, 4)]
   \<and> fst (get_color sector_c4v (with_batch (3, 0, 4)) 100 False) 100 = Float64 [[3 / 5, 0, 4 / 5]]
   \<and> fst (get_color sector_c4v (with_batch (3, 0, 4)) 100 False) (vertices sector_c4v)
       = with_batch (3, 0, 4) (vertices sector_c4v)"
proof -
  have f: "with_batch (3, 0, 4) 100 = Float64 [[3, 0, 4]]"
    by (simp add: with_batch_def row_of_vec3_def)
  have w: "vec3s_of_array [[3, 0, 4]] = Some [(3, 0, 4)]"
    by (simp add: vec3s_of_array_def)
  have r: "check_norm_rows [(3, 0, 4)] = [(3 / 5, 0, 4 / 5)]"
    using norm3_3_0_4 sqrt_epsf_lt_1
    by (simp add: check_norm_rows_def normalize_row_def div3_def)
  have v: "vertices sector_c4v \<noteq> 100" by (simp add: sector_c4v_def)
  from coloring_normalizes_in_place
         [of "with_batch (3, 0, 4)" 100 "[[3, 0, 4]]" "[(3, 0, 4)]" sector_c4v False, OF f w]
  have "fst (get_color sector_c4v (with_batch (3, 0, 4)) 100 False)
          = (with_batch (3, 0, 4))(100 := Float64 (map row_of_vec3 (check_norm_rows [(3, 0, 4)])))"
    by blast
  then show ?thesis using f w r v by (simp add: row_of_vec3_def)
qed

text \<open>What the constructor establishes for the colouring: a first vertex to read when the
  sector has triangles, the barycenter \<open>(0, 0, 1)\<close> when it has none.\<close>

lemma unit_mean_column0:
  assumes "unit_mean m = Some b"
  shows "column0 m \<noteq> None"
proof -
  from assms obtain r0 r1 r2 where m: "m = [r0, r1, r2]"
    by (auto simp: unit_mean_def split: list.splits)
  from assms m have ne: "r0 \<noteq> []" "r1 \<noteq> []" "r2 \<noteq> []"
    by (auto simp: unit_mean_def split: if_splits)
  then show ?thesis
    by (cases r0; cases r1; cases r2) (simp_all add: m column0_def)
qed

lemma sector_init_shape:
  assumes "sector_init st pg laue = Inr s"
  shows "(ntriangle s \<noteq> 0 \<longrightarrow> column0 (array_values (st (vertices s))) \<noteq> None)
      \<and> (ntriangle s \<noteq> 0 \<longrightarrow> column0 (array_values (st (vertices_laue s))) \<noteq> None)
      \<and> (ntriangle s = 0 \<longrightarrow> barycenter s = (0, 0, 1))
      \<and> (ntriangle s = 0 \<longrightarrow> barycenter_laue s = (0, 0, 1))"
proof -
  obtain nt vs conn hemi ntl vsl connl hemil where
    e: "pg = (nt, vs, conn, hemi)" "laue = (ntl, vsl, connl, hemil)"
    by (cases pg, cases laue) auto
  show ?thesis
  proof (cases "nt = 0")
    case True
    with assms e have "s = \<lparr>ntriangle = nt, vertices = vs, connectivity = conn, hemisphere = hemi,
                    ntriangle_laue = ntl, vertices_laue = vsl, connectivity_laue = connl,
                    hemisphere_laue = hemil, barycenter = (0, 0, 1), barycenter_laue = (0, 0, 1)\<rparr>"
      by (simp add: sector_init_def)
    with True show ?thesis by simp
  next
    case False
    with assms e obtain b bl where
      u: "unit_mean (array_values (st vs)) = Some b" "unit_mean (array_values (st vsl)) = Some bl"
      and s: "s = \<lparr>ntriangle = nt, vertices = vs, connectivity = conn, hemisphere = hemi,
                    ntriangle_laue = ntl, vertices_laue = vsl, connectivity_laue = connl,
                    hemisphere_laue = hemil, barycenter = b, barycenter_laue = bl\<rparr>"
      by (auto simp: sector_init_def split: option.splits)
    from unit_mean_column0 [OF u(1)] unit_mean_column0 [OF u(2)] s False
    show ?thesis by simp
  qed
qed

text \<open>The barycenter against its own normalized value.\<close>

lemma dot3_self: "dot3 v v = norm3 v * norm3 v"
proof (cases v)
  case (fields x y z)
  have "0 \<le> x * x + y * y + z * z" by (simp add: add_nonneg_nonneg)
  then show ?thesis using fields by (simp add: dot3_def norm3_def)
qed

lemma dot3_div3: "dot3 u (div3 v k) = dot3 u v / k"
  by (cases u; cases v) (simp add: dot3_def div3_def add_divide_distrib)

lemma dot3_normalize_row:
  "dot3 b (normalize_row b) = (if norm3 b > sqrt_epsf then norm3 b else norm3 b * norm3 b)"
proof (cases "norm3 b > sqrt_epsf")
  case True
  then have "norm3 b \<noteq> 0" using sqrt_epsf_pos by simp
  then have "norm3 b * norm3 b / norm3 b = norm3 b" by simp
  with True show ?thesis by (simp add: normalize_row_def dot3_div3 dot3_self)
next
  case False
  then show ?thesis by (simp add: normalize_row_def dot3_self)
qed


lemma dot3_normalize_row_lt_1: "dot3 b (normalize_row b) < 1 \<longleftrightarrow> norm3 b < 1"
proof (cases "norm3 b > sqrt_epsf")
  case True
  then show ?thesis by (simp add: dot3_normalize_row)
next
  case False
  then have small: "norm3 b < 1" using sqrt_epsf_lt_1 by simp
  have "norm3 b * norm3 b < 1 * 1"
    using small norm3_nonneg [of b] by (intro mult_strict_mono') simp_all
  with False small show ?thesis by (simp add: dot3_normalize_row)
qed

lemma dot3_normalize_row_eq_1: "dot3 b (normalize_row b) = 1 \<longleftrightarrow> norm3 b = 1"
proof (cases "norm3 b > sqrt_epsf")
  case True
  then show ?thesis by (simp add: dot3_normalize_row)
next
  case False
  then have small: "norm3 b < 1" using sqrt_epsf_lt_1 by simp
  then have "dot3 b (normalize_row b) < 1" by (simp add: dot3_normalize_row_lt_1)
  with small show ?thesis by simp
qed












lemma lightness_pi: "1 - (0.25 * (pi / pi) + 0.75 * (sin (pi / 2)) ^ 2) = (0 :: real)"
  by simp





end
